theory Spec2Isabelle
  imports Main "HOL-Library.Word" "HOL-Library.Sublist" "HOL-Library.AList"
begin

unbundle bit_operations_syntax

section \<open>Tunnelfy: the route table and the SSH forward handling\<close>

text \<open>
  A shallow embedding of \<^verbatim>\<open>internal/proxy/proxy.go\<close> and
  \<^verbatim>\<open>internal/ssh/server.go\<close>. Go strings are byte sequences, so a Go string is a
  \<^typ>\<open>string\<close> (a list of 8-bit characters). Library calls whose code is not part of the
  repository are parameters of the model: \<^verbatim>\<open>url.Parse\<close> is a function \<open>Parse\<close>,
  \<^verbatim>\<open>time.Now\<close> a value \<open>now\<close>, and the outcome of \<^verbatim>\<open>net.Listen\<close> an
  input of the request step. Log lines are not modelled.
\<close>

type_synonym byte = "8 word"
type_synonym uint32 = "32 word"

subsection \<open>Helpers from the Go standard library\<close>

text \<open>\<^verbatim>\<open>strings.HasPrefix\<close> and \<^verbatim>\<open>strings.HasSuffix\<close>, as the library writes them.\<close>

definition HasPrefix :: "string \<Rightarrow> string \<Rightarrow> bool" where
  "HasPrefix s p = (length s \<ge> length p \<and> take (length p) s = p)"

definition HasSuffix :: "string \<Rightarrow> string \<Rightarrow> bool" where
  "HasSuffix s x = (length s \<ge> length x \<and> drop (length s - length x) s = x)"

text \<open>\<^verbatim>\<open>strings.IndexByte\<close>: the index of the first occurrence, or \<open>-1\<close>.\<close>

fun IndexByte_from :: "nat \<Rightarrow> string \<Rightarrow> char \<Rightarrow> int" where
  "IndexByte_from i [] c = - 1"
| "IndexByte_from i (x # xs) c = (if x = c then int i else IndexByte_from (Suc i) xs c)"

definition IndexByte :: "string \<Rightarrow> char \<Rightarrow> int" where
  "IndexByte s c = IndexByte_from 0 s c"

text \<open>\<^verbatim>\<open>fmt.Sprintf("%d", n)\<close> for a non-negative \<open>n\<close>: its decimal digits.\<close>

definition digit_char :: "nat \<Rightarrow> char" where
  "digit_char d = char_of (48 + d)"

fun Sprintf_d :: "nat \<Rightarrow> string" where
  "Sprintf_d n = (if n < 10 then [digit_char n] else Sprintf_d (n div 10) @ [digit_char (n mod 10)])"

declare Sprintf_d.simps [simp del]

text \<open>\<^verbatim>\<open>binary.BigEndian.Uint32\<close> on a slice of four bytes and \<^verbatim>\<open>PutUint32\<close>.\<close>

definition BigEndian_Uint32 :: "byte list \<Rightarrow> uint32" where
  "BigEndian_Uint32 b =
     (ucast (b ! 3) OR push_bit 8 (ucast (b ! 2)) OR push_bit 16 (ucast (b ! 1)) OR
      push_bit 24 (ucast (b ! 0)))"

definition BigEndian_PutUint32 :: "uint32 \<Rightarrow> byte list" where
  "BigEndian_PutUint32 v =
     [ucast (drop_bit 24 v), ucast (drop_bit 16 v), ucast (drop_bit 8 v), ucast v]"

subsection \<open>proxy.go: the sharded route manager\<close>

text \<open>
  \<open>routeShards = 256\<close>; the shard array is indexed by the \<^verbatim>\<open>uint8\<close> that
  \<open>shardIdx\<close> returns, so it is a function on \<^typ>\<open>8 word\<close>. The \<open>Proxy\<close> field holds
  the URL that the closures of the pre-created reverse proxy capture.
\<close>

record 'url UpstreamEntry =
  TargetURL :: 'url
  Proxy :: 'url
  CreatedAt :: nat

record 'url ShardedRouteManager =
  shards :: "8 word \<Rightarrow> (string \<rightharpoonup> 'url UpstreamEntry)"
  logRequests :: bool

definition NewShardedRouteManager :: "bool \<Rightarrow> 'url ShardedRouteManager" where
  "NewShardedRouteManager lg = \<lparr>shards = (\<lambda>i. Map.empty), logRequests = lg\<rparr>"

text \<open>The loop of \<open>shardIdx\<close>: \<^verbatim>\<open>h = h*16777619 ^ uint32(key[i])\<close> on \<^verbatim>\<open>uint32\<close>.\<close>

fun shardIdx_loop :: "uint32 \<Rightarrow> string \<Rightarrow> uint32" where
  "shardIdx_loop h [] = h"
| "shardIdx_loop h (c # cs) = shardIdx_loop (h * 16777619 XOR of_nat (of_char c)) cs"

definition shardIdx :: "string \<Rightarrow> 8 word" where
  "shardIdx key = ucast (shardIdx_loop 0 key mod 256)"

text \<open>The normalisation at the head of \<open>AddRoute\<close> (the variable \<open>raw\<close>).\<close>

definition raw_target :: "string \<Rightarrow> string" where
  "raw_target target =
     (if HasPrefix target ''http://'' \<or> HasPrefix target ''https://'' then target
      else ''http://'' @ target)"

definition AddRoute ::
  "(string \<Rightarrow> 'e + 'url) \<Rightarrow> nat \<Rightarrow> 'url ShardedRouteManager \<Rightarrow> string \<Rightarrow> string
     \<Rightarrow> 'e + 'url ShardedRouteManager" where
  "AddRoute Parse now m host target =
     (case Parse (raw_target target) of
        Inl err \<Rightarrow> Inl err
      | Inr u \<Rightarrow>
          (let entry = \<lparr>TargetURL = u, Proxy = u, CreatedAt = now\<rparr>;
               idx = shardIdx host;
               s = shards m idx
           in Inr (m\<lparr>shards := (shards m)(idx := s(host \<mapsto> entry))\<rparr>)))"

definition RemoveRoute :: "'url ShardedRouteManager \<Rightarrow> string \<Rightarrow> 'url ShardedRouteManager" where
  "RemoveRoute m host =
     (let idx = shardIdx host; s = shards m idx
      in m\<lparr>shards := (shards m)(idx := s(host := None))\<rparr>)"

definition GetEntry :: "'url ShardedRouteManager \<Rightarrow> string \<Rightarrow> 'url UpstreamEntry option" where
  "GetEntry m host = (let idx = shardIdx host; s = shards m idx in s host)"

text \<open>A sequence of writes to the table, each with its own clock reading.\<close>

datatype route_op = OpAdd string string nat | OpRemove string

fun op_host :: "route_op \<Rightarrow> string" where
  "op_host (OpAdd h t n) = h"
| "op_host (OpRemove h) = h"

fun apply_op ::
  "(string \<Rightarrow> 'e + 'url) \<Rightarrow> 'url ShardedRouteManager \<Rightarrow> route_op \<Rightarrow> 'url ShardedRouteManager" where
  "apply_op Parse m (OpAdd h t n) = (case AddRoute Parse n m h t of Inl err \<Rightarrow> m | Inr m' \<Rightarrow> m')"
| "apply_op Parse m (OpRemove h) = RemoveRoute m h"

definition apply_ops ::
  "(string \<Rightarrow> 'e + 'url) \<Rightarrow> 'url ShardedRouteManager \<Rightarrow> route_op list \<Rightarrow> 'url ShardedRouteManager" where
  "apply_ops Parse m ops = foldl (apply_op Parse) m ops"

text \<open>Invariant I1 of the table: a host is stored only in the shard of its index.\<close>

definition shard_partition :: "'url ShardedRouteManager \<Rightarrow> bool" where
  "shard_partition m = (\<forall>i h. shards m i h \<noteq> None \<longrightarrow> i = shardIdx h)"

subsection \<open>proxy.go: the HTTP front door\<close>

text \<open>
  What the handler writes: \<^verbatim>\<open>http.Error(w, msg, code)\<close>, \<^verbatim>\<open>http.NotFound\<close>, or the
  delegation to the entry's reverse proxy with the headers set on the request. The
  record also lists the keys passed to \<open>GetEntry\<close>.
\<close>

datatype 'url http_response =
    HttpError string nat
  | HttpNotFound
  | ServeHTTP "'url UpstreamEntry" "(string \<times> string) list"

fun status_code :: "'url http_response \<Rightarrow> nat option" where
  "status_code (HttpError msg code) = Some code"
| "status_code HttpNotFound = Some 404"
| "status_code (ServeHTTP e hs) = None"

record 'url handled =
  response :: "'url http_response"
  lookups :: "string list"

definition strip_port :: "string \<Rightarrow> string" where
  "strip_port host = (let i = IndexByte host CHR '':'' in if i \<ge> 0 then take (nat i) host else host)"

definition FastProxyHandler :: "'url ShardedRouteManager \<Rightarrow> string \<Rightarrow> string \<Rightarrow> 'url handled" where
  "FastProxyHandler m zone rHost =
     (let host = strip_port rHost in
      if zone \<noteq> [] \<and> \<not> HasSuffix host (''.'' @ zone)
      then \<lparr>response = HttpError ''invalid host'' 400, lookups = []\<rparr>
      else (case GetEntry m host of
              None \<Rightarrow> \<lparr>response = HttpNotFound, lookups = [host]\<rparr>
            | Some entry \<Rightarrow>
                \<lparr>response = ServeHTTP entry
                   (if logRequests m
                    then [(''X-Tunnel-User'', takeWhile (\<lambda>c. c \<noteq> CHR ''.'') host)] else []),
                 lookups = [host]\<rparr>))"

subsection \<open>server.go: parsing a forward request\<close>

datatype parse_error = PayloadTooShort | InvalidPayloadLength nat nat

text \<open>
  \<open>addrLen\<close> and \<open>expected\<close> are Go \<^verbatim>\<open>int\<close>s; on the 64-bit targets the server is
  built for, \<open>4 + addrLen + 4\<close> cannot overflow (\<open>addrLen < 2^32\<close>), so they are naturals.
  Both slices that are read have four bytes, by the two length checks.
\<close>

definition parseForwardPort :: "byte list \<Rightarrow> parse_error + string" where
  "parseForwardPort payload =
     (if length payload < 4 then Inl PayloadTooShort
      else
        (let addrLen = unat (BigEndian_Uint32 (take 4 payload));
             expected = 4 + addrLen + 4
         in if length payload < expected
            then Inl (InvalidPayloadLength expected (length payload))
            else Inr (Sprintf_d (unat (BigEndian_Uint32 (take 4 (drop (4 + addrLen) payload)))))))"

subsection \<open>server.go: the server, its bookkeeping and the listeners it creates\<close>

text \<open>
  \<open>activeTunnelM\<close> is the \<^verbatim>\<open>sync.Map\<close> of the server (key \<open>user:port\<close>, value the host
  name): \<open>Store\<close> is \<open>AList.update\<close>, \<open>Load\<close> is \<open>map_of\<close>, \<open>Delete\<close> is
  \<open>AList.delete\<close>, and \<open>Range\<close> visits the entries present when it starts. The one
  \<open>SSHServer\<close> value is shared by every connection that \<open>HandleConn\<close> serves.
\<close>

record 'url SSHServer =
  manager :: "'url ShardedRouteManager"
  zone :: string
  activeTunnelM :: "(string \<times> string) list"
  srv_logRequests :: bool

text \<open>
  The world around the server: every listener that \<^verbatim>\<open>net.Listen\<close> has returned (its bound
  port, and whether it is still open), and the acceptor goroutines that were started
  (listener, \<open>upstreamHost\<close>, \<open>upstreamPort\<close>).
\<close>

record 'url world =
  server :: "'url SSHServer"
  listeners :: "(nat \<times> bool) list"
  acceptors :: "(nat \<times> string \<times> string) list"

definition close_listener :: "nat \<Rightarrow> 'url world \<Rightarrow> 'url world" where
  "close_listener lid w =
     w\<lparr>listeners := (listeners w)[lid := (fst (listeners w ! lid), False)]\<rparr>"

record request =
  Type :: string
  Payload :: "byte list"

text \<open>
  What one global request produces besides the new state: the reply
  (\<^verbatim>\<open>req.Reply(ok, payload)\<close>) and the address passed to \<^verbatim>\<open>net.Listen\<close>, if it was called.
\<close>

record step_out =
  reply_ok :: bool
  reply_payload :: "byte list"
  listen_call :: "string option"

definition handle_forward ::
  "(string \<Rightarrow> 'e + 'url) \<Rightarrow> nat \<Rightarrow> nat option \<Rightarrow> string \<Rightarrow> 'url world \<Rightarrow> byte list
     \<Rightarrow> 'url world \<times> step_out" where
  "handle_forward Parse now listen_result username w payload =
     (case parseForwardPort payload of
        Inl err \<Rightarrow> (w, \<lparr>reply_ok = False, reply_payload = [], listen_call = None\<rparr>)
      | Inr requestedPortStr \<Rightarrow>
          (let listenAddr = ''127.0.0.1:'' @ requestedPortStr in
           case listen_result of
             None \<Rightarrow> (w, \<lparr>reply_ok = False, reply_payload = [], listen_call = Some listenAddr\<rparr>)
           | Some actualPort \<Rightarrow>
               (let listener = length (listeners w);
                    w1 = w\<lparr>listeners := listeners w @ [(actualPort, True)]\<rparr>;
                    actualPortStr = Sprintf_d actualPort;
                    fullHost = username @ ''.'' @ zone (server w);
                    routeTarget = ''127.0.0.1:'' @ Sprintf_d actualPort
                in case AddRoute Parse now (manager (server w)) fullHost routeTarget of
                     Inl err \<Rightarrow>
                       (close_listener listener w1,
                        \<lparr>reply_ok = False, reply_payload = [], listen_call = Some listenAddr\<rparr>)
                   | Inr m' \<Rightarrow>
                       (let key = username @ '':'' @ actualPortStr in
                        (w1\<lparr>server := (server w)\<lparr>manager := m',
                               activeTunnelM := AList.update key fullHost (activeTunnelM (server w))\<rparr>,
                             acceptors := acceptors w @ [(listener, ''localhost'', ''3000'')]\<rparr>,
                         \<lparr>reply_ok = True,
                          reply_payload = BigEndian_PutUint32 (of_nat actualPort),
                          listen_call = Some listenAddr\<rparr>)))))"

definition handle_cancel :: "string \<Rightarrow> 'url world \<Rightarrow> byte list \<Rightarrow> 'url world \<times> step_out" where
  "handle_cancel username w payload =
     (case parseForwardPort payload of
        Inl err \<Rightarrow> (w, \<lparr>reply_ok = False, reply_payload = [], listen_call = None\<rparr>)
      | Inr port \<Rightarrow>
          (let key = username @ '':'' @ port in
           ((case map_of (activeTunnelM (server w)) key of
               Some hostStr \<Rightarrow>
                 w\<lparr>server := (server w)\<lparr>manager := RemoveRoute (manager (server w)) hostStr,
                      activeTunnelM := AList.delete key (activeTunnelM (server w))\<rparr>\<rparr>
             | None \<Rightarrow> w),
            \<lparr>reply_ok = True, reply_payload = [], listen_call = None\<rparr>)))"

definition handle_request ::
  "(string \<Rightarrow> 'e + 'url) \<Rightarrow> nat \<Rightarrow> nat option \<Rightarrow> string \<Rightarrow> 'url world \<Rightarrow> request
     \<Rightarrow> 'url world \<times> step_out" where
  "handle_request Parse now listen_result username w req =
     (if Type req = ''tcpip-forward''
      then handle_forward Parse now listen_result username w (Payload req)
      else if Type req = ''cancel-tcpip-forward''
      then handle_cancel username w (Payload req)
      else (w, \<lparr>reply_ok = False, reply_payload = [], listen_call = None\<rparr>))"

text \<open>The cleanup after the request loop: \<open>Range\<close> over \<open>activeTunnelM\<close>.\<close>

definition teardown_entry :: "string \<Rightarrow> string \<times> string \<Rightarrow> 'url SSHServer \<Rightarrow> 'url SSHServer" where
  "teardown_entry username kv srv =
     (if HasPrefix (fst kv) (username @ '':'')
      then srv\<lparr>manager := RemoveRoute (manager srv) (snd kv),
               activeTunnelM := AList.delete (fst kv) (activeTunnelM srv)\<rparr>
      else srv)"

definition teardown :: "string \<Rightarrow> 'url world \<Rightarrow> 'url world" where
  "teardown username w =
     w\<lparr>server := fold (teardown_entry username) (activeTunnelM (server w)) (server w)\<rparr>"

text \<open>
  One connection: the handshake gives no user name (\<open>None\<close>: it failed) or the name found
  in the permissions; then the requests are served in order, each with the clock reading
  and the outcome of \<^verbatim>\<open>net.Listen\<close> it meets; then the cleanup runs.
\<close>

fun serve_requests ::
  "(string \<Rightarrow> 'e + 'url) \<Rightarrow> string \<Rightarrow> 'url world \<Rightarrow> (request \<times> nat \<times> nat option) list
     \<Rightarrow> 'url world \<times> step_out list" where
  "serve_requests Parse username w [] = (w, [])"
| "serve_requests Parse username w ((req, now, listen_result) # rest) =
     (let (w1, out) = handle_request Parse now listen_result username w req;
          (w2, outs) = serve_requests Parse username w1 rest
      in (w2, out # outs))"

definition HandleConn ::
  "(string \<Rightarrow> 'e + 'url) \<Rightarrow> string option \<Rightarrow> 'url world \<Rightarrow> (request \<times> nat \<times> nat option) list
     \<Rightarrow> 'url world \<times> step_out list" where
  "HandleConn Parse handshake w reqs =
     (case handshake of
        None \<Rightarrow> (w, [])
      | Some username \<Rightarrow>
          if username = [] then (w, [])
          else (let (w1, outs) = serve_requests Parse username w reqs
                in (teardown username w1, outs)))"

text \<open>
  The acceptor goroutine of a listener, on a connection it accepts: the inner goroutine
  dials \<open>upstreamHost:upstreamPort\<close> and copies in both directions. The SSH library could
  open a channel to the peer instead; the datatype has both so that the difference can
  be stated. The acceptor closes its listener only after \<^verbatim>\<open>Accept\<close> has returned an
  error; the server gives it none, since the one \<^verbatim>\<open>listener.Close()\<close> outside the
  acceptor is on the install-failure path, before the acceptor is started. An error of
  the operating system on \<^verbatim>\<open>Accept\<close> is not modelled.
\<close>

datatype net_action = NetDial string | SshOpenChannel string "byte list"

definition forward_conn :: "string \<Rightarrow> string \<Rightarrow> net_action list" where
  "forward_conn upstreamHost upstreamPort = [NetDial (upstreamHost @ '':'' @ upstreamPort)]"

definition accept_conn :: "'url world \<Rightarrow> nat \<Rightarrow> net_action list option" where
  "accept_conn w listener =
     (if listener < length (listeners w) \<and> snd (listeners w ! listener)
      then (case find (\<lambda>a. fst a = listener) (acceptors w) of
              None \<Rightarrow> None
            | Some a \<Rightarrow> Some (forward_conn (fst (snd a)) (snd (snd a))))
      else None)"

subsection \<open>Runs of concurrent connections\<close>

text \<open>
  Connections run concurrently; at the grain of whole requests, a run of the server is
  a sequence of events, each the next request of some connection or the end of one. A
  connection acts on the shared state only through its user name.
\<close>

datatype session_event = Request request nat "nat option" | Disconnect

fun session_step ::
  "(string \<Rightarrow> 'e + 'url) \<Rightarrow> 'url world \<Rightarrow> string \<times> session_event \<Rightarrow> 'url world" where
  "session_step Parse w (username, Request req now listen_result) =
     fst (handle_request Parse now listen_result username w req)"
| "session_step Parse w (username, Disconnect) = teardown username w"

definition run_sessions ::
  "(string \<Rightarrow> 'e + 'url) \<Rightarrow> 'url world \<Rightarrow> (string \<times> session_event) list \<Rightarrow> 'url world" where
  "run_sessions Parse w evs = foldl (session_step Parse) w evs"

text \<open>The users with a request that no end of a connection of theirs has followed yet.\<close>

fun open_step :: "string set \<Rightarrow> string \<times> session_event \<Rightarrow> string set" where
  "open_step U (username, Request req now listen_result) = insert username U"
| "open_step U (username, Disconnect) = U - {username}"

definition open_users :: "(string \<times> session_event) list \<Rightarrow> string set" where
  "open_users evs = foldl open_step {} evs"

definition tunnels_inv :: "string set \<Rightarrow> 'url world \<Rightarrow> bool" where
  "tunnels_inv U w \<longleftrightarrow>
     shard_partition (manager (server w))
     \<and> (\<forall>k v. map_of (activeTunnelM (server w)) k = Some v \<longrightarrow>
           (\<exists>u \<in> U. \<exists>p. k = u @ '':'' @ Sprintf_d p \<and> v = u @ ''.'' @ zone (server w)))
     \<and> (\<forall>h. GetEntry (manager (server w)) h \<noteq> None \<longrightarrow>
           (\<exists>k. map_of (activeTunnelM (server w)) k = Some h))"

subsection \<open>The target normalisation in the words of the specification\<close>

text \<open>
  The specification prepends \<open>http://\<close> to a target that lacks a scheme. Here a target
  has a scheme when it starts with a letter followed by letters, digits, \<open>+\<close>, \<open>-\<close> or
  \<open>.\<close>, and then \<open>://\<close>; so \<open>host:port\<close> has none. This is the reading of the
  specification, to be compared with \<open>raw_target\<close>, which is the code.
\<close>

definition is_alpha :: "char \<Rightarrow> bool" where
  "is_alpha c = (let n = (of_char c :: nat) in (65 \<le> n \<and> n \<le> 90) \<or> (97 \<le> n \<and> n \<le> 122))"

definition is_scheme_char :: "char \<Rightarrow> bool" where
  "is_scheme_char c =
     (let n = (of_char c :: nat)
      in is_alpha c \<or> (48 \<le> n \<and> n \<le> 57) \<or> n = 43 \<or> n = 45 \<or> n = 46)"

definition spec_has_scheme :: "string \<Rightarrow> bool" where
  "spec_has_scheme t =
     (let s = takeWhile is_scheme_char t
      in s \<noteq> [] \<and> is_alpha (hd s) \<and> HasPrefix (drop (length s) t) ''://'')"

definition spec_normalize :: "string \<Rightarrow> string" where
  "spec_normalize t = (if spec_has_scheme t then t else ''http://'' @ t)"

subsection \<open>Example inputs\<close>

text \<open>
  Concrete values at which the theorems below are instantiated: a stand-in for
  \<^verbatim>\<open>url.Parse\<close> that keeps the text of the URL and rejects the empty string, and the
  manager that \<open>NewShardedRouteManager\<close> returns.
\<close>

definition ex_Parse :: "string \<Rightarrow> unit + string" where
  "ex_Parse raw = (if raw = [] then Inl () else Inr raw)"

definition ex_manager :: "string ShardedRouteManager" where
  "ex_manager = NewShardedRouteManager False"

definition ex_world :: "string world" where
  "ex_world =
     \<lparr>server = \<lparr>manager = ex_manager, zone = ''example.test'', activeTunnelM = [],
                 srv_logRequests = False\<rparr>,
      listeners = [], acceptors = []\<rparr>"

text \<open>
  The payload that \<open>Connect\<close> of \<^verbatim>\<open>client.go\<close> builds for the bind address
  \<open>0.0.0.0\<close>, here for any port.
\<close>

definition client_payload :: "nat \<Rightarrow> byte list" where
  "client_payload p =
     BigEndian_PutUint32 7 @ [48, 46, 48, 46, 48, 46, 48] @ BigEndian_PutUint32 (of_nat p)"

text \<open>A stand-in for \<^verbatim>\<open>url.Parse\<close> that rejects every URL, and two requests.\<close>

definition ex_Parse_fail :: "string \<Rightarrow> unit + string" where
  "ex_Parse_fail raw = Inl ()"

definition ex_forward_req :: "nat \<Rightarrow> request" where
  "ex_forward_req p = \<lparr>Type = ''tcpip-forward'', Payload = client_payload p\<rparr>"

definition ex_cancel_req :: "nat \<Rightarrow> request" where
  "ex_cancel_req p = \<lparr>Type = ''cancel-tcpip-forward'', Payload = client_payload p\<rparr>"

text \<open>
  The worlds after alice's first forward (bound to port 40001), after her second one
  (bound to port 40002), and after her cancel of the first.
\<close>

definition ex_world1 :: "string world" where
  "ex_world1 = fst (handle_request ex_Parse 7 (Some 40001) ''alice'' ex_world (ex_forward_req 0))"

definition ex_world2 :: "string world" where
  "ex_world2 = fst (handle_request ex_Parse 8 (Some 40002) ''alice'' ex_world1 (ex_forward_req 0))"

definition ex_world3 :: "string world" where
  "ex_world3 = fst (handle_request ex_Parse 9 None ''alice'' ex_world2 (ex_cancel_req 40001))"

text \<open>The world after alice's forward on port 40001 and bob's forward on port 40002.\<close>

definition ex_world_ab :: "string world" where
  "ex_world_ab = fst (handle_request ex_Parse 8 (Some 40002) ''bob'' ex_world1 (ex_forward_req 0))"

section \<open>Facts about the helpers\<close>

lemma HasPrefix_prefix: "HasPrefix s p \<longleftrightarrow> prefix p s"
  by (auto simp: HasPrefix_def prefix_def) (metis append_take_drop_id)

lemma HasSuffix_suffix: "HasSuffix s x \<longleftrightarrow> suffix x s"
  by (auto simp: HasSuffix_def suffix_def) (metis append_take_drop_id)

lemma IndexByte_from_eq:
  "IndexByte_from i s c =
     (if c \<in> set s then int (i + length (takeWhile (\<lambda>x. x \<noteq> c) s)) else - 1)"
  by (induction s arbitrary: i) auto

lemma take_IndexByte:
  "(let i = IndexByte s c in if i \<ge> 0 then take (nat i) s else s) = takeWhile (\<lambda>x. x \<noteq> c) s"
proof (cases "c \<in> set s")
  case True
  then show ?thesis
    by (simp add: IndexByte_def IndexByte_from_eq Let_def takeWhile_eq_take[symmetric])
next
  case False
  then have tw: "takeWhile (\<lambda>x. x \<noteq> c) s = s"
    by (auto simp: takeWhile_eq_all_conv)
  from False have "IndexByte s c = - 1"
    by (simp add: IndexByte_def IndexByte_from_eq)
  then show ?thesis
    unfolding tw by (simp add: Let_def)
qed

lemma strip_port_takeWhile: "strip_port host = takeWhile (\<lambda>c. c \<noteq> CHR '':'') host"
  unfolding strip_port_def by (rule take_IndexByte)

lemma shardIdx_loop_foldl:
  "shardIdx_loop h key = foldl (\<lambda>a c. a * 16777619 XOR of_nat (of_char c)) h key"
  by (induction key arbitrary: h) simp_all

lemma unat_shardIdx: "unat (shardIdx key) = unat (shardIdx_loop 0 key) mod 256"
  by (simp add: shardIdx_def unsigned_ucast_eq unat_mod take_bit_eq_mod)

lemma GetEntry_AddRoute_same:
  "AddRoute Parse now m h t = Inr m' \<Longrightarrow>
   \<exists>e. GetEntry m' h = Some e \<and> Parse (raw_target t) = Inr (TargetURL e)"
  by (auto simp: AddRoute_def GetEntry_def Let_def split: sum.splits)

lemma GetEntry_AddRoute_other:
  "AddRoute Parse now m h t = Inr m' \<Longrightarrow> h' \<noteq> h \<Longrightarrow> GetEntry m' h' = GetEntry m h'"
  by (auto simp: AddRoute_def GetEntry_def Let_def split: sum.splits)

lemma GetEntry_RemoveRoute: "GetEntry (RemoveRoute m h) h' = (if h' = h then None else GetEntry m h')"
  by (auto simp: RemoveRoute_def GetEntry_def Let_def)

lemma GetEntry_apply_op_other: "op_host x \<noteq> h \<Longrightarrow> GetEntry (apply_op Parse m x) h = GetEntry m h"
  by (cases x) (auto simp: GetEntry_RemoveRoute GetEntry_AddRoute_other split: sum.splits)

lemma GetEntry_apply_ops_other:
  "\<forall>x \<in> set ops. op_host x \<noteq> h \<Longrightarrow> GetEntry (apply_ops Parse m ops) h = GetEntry m h"
  unfolding apply_ops_def
  by (induction ops arbitrary: m) (simp_all add: GetEntry_apply_op_other)

lemma shard_partition_New: "shard_partition (NewShardedRouteManager lg)"
  by (simp add: shard_partition_def NewShardedRouteManager_def)

lemma shard_partition_AddRoute:
  "shard_partition m \<Longrightarrow> AddRoute Parse now m h t = Inr m' \<Longrightarrow> shard_partition m'"
  by (auto simp: shard_partition_def AddRoute_def Let_def split: sum.splits if_splits)

lemma shard_partition_RemoveRoute: "shard_partition m \<Longrightarrow> shard_partition (RemoveRoute m h)"
  by (auto simp: shard_partition_def RemoveRoute_def Let_def split: if_splits)

lemma shard_partition_apply_op: "shard_partition m \<Longrightarrow> shard_partition (apply_op Parse m x)"
  by (cases x) (auto simp: shard_partition_RemoveRoute shard_partition_AddRoute split: sum.splits)

lemma shard_partition_apply_ops: "shard_partition m \<Longrightarrow> shard_partition (apply_ops Parse m ops)"
  unfolding apply_ops_def
  by (induction ops arbitrary: m) (simp_all add: shard_partition_apply_op)

lemma AddRoute_shards_other:
  "AddRoute Parse now m h t = Inr m' \<Longrightarrow> i \<noteq> shardIdx h \<Longrightarrow> shards m' i = shards m i"
  by (auto simp: AddRoute_def Let_def split: sum.splits)

lemma RemoveRoute_shards_other: "i \<noteq> shardIdx h \<Longrightarrow> shards (RemoveRoute m h) i = shards m i"
  by (simp add: RemoveRoute_def Let_def)

lemma digit_char_simps:
  "digit_char 0 = CHR ''0''" "digit_char 1 = CHR ''1''" "digit_char 2 = CHR ''2''"
  "digit_char 3 = CHR ''3''" "digit_char 4 = CHR ''4''" "digit_char 5 = CHR ''5''"
  "digit_char 6 = CHR ''6''" "digit_char 7 = CHR ''7''" "digit_char 8 = CHR ''8''"
  "digit_char 9 = CHR ''9''" "digit_char (Suc 0) = CHR ''1''"
  by code_simp+

lemma digit_char_inj: "a < 10 \<Longrightarrow> b < 10 \<Longrightarrow> digit_char a = digit_char b \<Longrightarrow> a = b"
proof -
  assume a: "a < 10" and b: "b < 10" and e: "digit_char a = digit_char b"
  from e have "(of_char (digit_char a) :: nat) = of_char (digit_char b)" by simp
  then have "(48 + a) mod 256 = (48 + b) mod 256"
    by (simp add: digit_char_def)
  with a b show "a = b" by simp
qed

lemma Sprintf_d_nonempty: "Sprintf_d n \<noteq> []"
  by (subst Sprintf_d.simps) simp

lemma Sprintf_d_inj: "Sprintf_d a = Sprintf_d b \<Longrightarrow> a = b"
proof (induction a arbitrary: b rule: Sprintf_d.induct)
  case (1 n)
  show ?case
  proof (cases "n < 10")
    case True
    show ?thesis
    proof (cases "b < 10")
      case bs: True
      from "1.prems" True bs have "digit_char n = digit_char b"
        by (simp add: Sprintf_d.simps)
      with True bs show ?thesis by (rule digit_char_inj)
    next
      case bl: False
      from "1.prems" True bl have "[digit_char n] = Sprintf_d (b div 10) @ [digit_char (b mod 10)]"
        by (simp add: Sprintf_d.simps[of n] Sprintf_d.simps[of b])
      then have "Sprintf_d (b div 10) = []" by simp
      then show ?thesis by (simp add: Sprintf_d_nonempty)
    qed
  next
    case False
    show ?thesis
    proof (cases "b < 10")
      case bs: True
      from "1.prems" False bs have "Sprintf_d (n div 10) @ [digit_char (n mod 10)] = [digit_char b]"
        by (simp add: Sprintf_d.simps[of n] Sprintf_d.simps[of b])
      then have "Sprintf_d (n div 10) = []" by simp
      then show ?thesis by (simp add: Sprintf_d_nonempty)
    next
      case bl: False
      from "1.prems" False bl
      have "Sprintf_d (n div 10) @ [digit_char (n mod 10)] = Sprintf_d (b div 10) @ [digit_char (b mod 10)]"
        by (simp add: Sprintf_d.simps[of n] Sprintf_d.simps[of b])
      then have e1: "Sprintf_d (n div 10) = Sprintf_d (b div 10)"
        and e2: "digit_char (n mod 10) = digit_char (b mod 10)" by simp_all
      from "1.IH"[OF False e1] have d: "n div 10 = b div 10" .
      from e2 have m: "n mod 10 = b mod 10" by (intro digit_char_inj) simp_all
      from d m show ?thesis by (metis div_mult_mod_eq)
    qed
  qed
qed

lemma Sprintf_d_digits: "c \<in> set (Sprintf_d n) \<Longrightarrow> \<exists>d<10. c = digit_char d"
proof (induction n rule: Sprintf_d.induct)
  case (1 n)
  show ?case
  proof (cases "n < 10")
    case True
    with "1.prems" have "c = digit_char n"
      by (simp add: Sprintf_d.simps [of n])
    with True show ?thesis by blast
  next
    case False
    with "1.prems" have "c \<in> set (Sprintf_d (n div 10)) \<or> c = digit_char (n mod 10)"
      by (auto simp: Sprintf_d.simps [of n])
    then show ?thesis
    proof
      assume "c \<in> set (Sprintf_d (n div 10))"
      with False show ?thesis by (rule "1.IH")
    next
      assume "c = digit_char (n mod 10)"
      moreover have "n mod 10 < 10" by simp
      ultimately show ?thesis by blast
    qed
  qed
qed

lemma digit_char_code: "d < 10 \<Longrightarrow> (of_char (digit_char d) :: nat) = 48 + d"
  by (simp add: digit_char_def)

lemma colon_notin_Sprintf_d: "CHR '':'' \<notin> set (Sprintf_d n)"
proof
  assume "CHR '':'' \<in> set (Sprintf_d n)"
  then obtain d where d: "d < 10" and e: "CHR '':'' = digit_char d"
    using Sprintf_d_digits by blast
  from e have "(of_char CHR '':'' :: nat) = of_char (digit_char d)" by (rule arg_cong)
  with d show False by (simp add: digit_char_code)
qed

lemma split_at_last:
  assumes eq: "a @ c # x = b @ c # y" and x: "c \<notin> set x" and y: "c \<notin> set y"
  shows "a = b \<and> x = y"
proof -
  from eq have "rev (a @ c # x) = rev (b @ c # y)" by (rule arg_cong)
  then have r: "rev x @ c # rev a = rev y @ c # rev b" by simp
  have tw: "c \<notin> set zs \<Longrightarrow> takeWhile (\<lambda>z. z \<noteq> c) (rev zs @ c # ws) = rev zs" for zs ws
    by (induction zs rule: rev_induct) auto
  have "takeWhile (\<lambda>z. z \<noteq> c) (rev x @ c # rev a) = rev x"
    using x by (rule tw)
  moreover have "takeWhile (\<lambda>z. z \<noteq> c) (rev y @ c # rev b) = rev y"
    using y by (rule tw)
  ultimately have "rev x = rev y" using r by simp
  then have xy: "x = y" by simp
  with eq show ?thesis by simp
qed

lemma tunnel_key_user:
  assumes "u @ '':'' @ Sprintf_d p = u' @ '':'' @ Sprintf_d p'"
  shows "u = u'"
proof -
  from assms have "u @ CHR '':'' # Sprintf_d p = u' @ CHR '':'' # Sprintf_d p'" by simp
  from split_at_last [OF this colon_notin_Sprintf_d colon_notin_Sprintf_d] show ?thesis ..
qed

section \<open>The route table\<close>

text \<open>
  C9. The shard index is the multiply-xor fold over the bytes of the host name in
  32-bit arithmetic, reduced modulo 256, so it lies in \<open>[0, 256)\<close>; lookup reads the
  shard with that index, install and remove leave every other shard as it was, and in
  every table built from the empty one by installs and removes a host is stored only in
  the shard of its index.
\<close>

theorem shardIdx_partition:
  "shardIdx h = ucast (foldl (\<lambda>a c. a * 16777619 XOR of_nat (of_char c)) (0 :: uint32) h mod 256)
   \<and> unat (shardIdx h) = unat (foldl (\<lambda>a c. a * 16777619 XOR of_nat (of_char c)) (0 :: uint32) h) mod 256
   \<and> unat (shardIdx h) < 256
   \<and> GetEntry m h = shards m (shardIdx h) h
   \<and> (AddRoute Parse now m h t = Inr m' \<and> j \<noteq> shardIdx h \<longrightarrow> shards m' j = shards m j)
   \<and> (j \<noteq> shardIdx h \<longrightarrow> shards (RemoveRoute m h) j = shards m j)
   \<and> (shards (apply_ops Parse (NewShardedRouteManager lg) ops) i h \<noteq> None \<longrightarrow> i = shardIdx h)"
proof -
  have "shard_partition (apply_ops Parse (NewShardedRouteManager lg) ops)"
    by (rule shard_partition_apply_ops) (rule shard_partition_New)
  then have part: "shards (apply_ops Parse (NewShardedRouteManager lg) ops) i h \<noteq> None \<longrightarrow> i = shardIdx h"
    unfolding shard_partition_def by blast
  have bound: "unat (shardIdx h) < 256"
    using unsigned_less [of "shardIdx h"] by simp
  have idx: "shardIdx h = ucast (foldl (\<lambda>a c. a * 16777619 XOR of_nat (of_char c)) (0 :: uint32) h mod 256)"
    by (simp add: shardIdx_def shardIdx_loop_foldl)
  have idx2: "unat (shardIdx h) = unat (foldl (\<lambda>a c. a * 16777619 XOR of_nat (of_char c)) (0 :: uint32) h) mod 256"
    by (simp add: unat_shardIdx shardIdx_loop_foldl)
  have get: "GetEntry m h = shards m (shardIdx h) h"
    by (simp add: GetEntry_def Let_def)
  show ?thesis
    using part bound idx idx2 get AddRoute_shards_other [of Parse now m h t m' j]
      RemoveRoute_shards_other [of j h m]
    by blast
qed

theorem shardIdx_partition_witness:
  "AddRoute ex_Parse 7 ex_manager ''a.z'' ''127.0.0.1:8080''
     = Inr (apply_ops ex_Parse ex_manager [OpAdd ''a.z'' ''127.0.0.1:8080'' 7])
   \<and> (94 :: 8 word) \<noteq> shardIdx ''a.z''
   \<and> shards (apply_ops ex_Parse (NewShardedRouteManager False) [OpAdd ''a.z'' ''127.0.0.1:8080'' 7]) 93 ''a.z'' \<noteq> None
   \<and> shardIdx ''a.z'' = 93
   \<and> shards (apply_ops ex_Parse ex_manager [OpAdd ''a.z'' ''127.0.0.1:8080'' 7]) 94 = shards ex_manager 94
   \<and> shards (RemoveRoute ex_manager ''a.z'') 94 = shards ex_manager 94"
proof -
  have idx: "shardIdx ''a.z'' = 93"
    by (simp add: shardIdx_def)
  have add: "AddRoute ex_Parse 7 ex_manager ''a.z'' ''127.0.0.1:8080''
     = Inr (apply_ops ex_Parse ex_manager [OpAdd ''a.z'' ''127.0.0.1:8080'' 7])"
    by (simp add: apply_ops_def AddRoute_def ex_Parse_def raw_target_def HasPrefix_def Let_def)
  have stored: "shards (apply_ops ex_Parse (NewShardedRouteManager False) [OpAdd ''a.z'' ''127.0.0.1:8080'' 7]) 93 ''a.z'' \<noteq> None"
    by (simp add: apply_ops_def AddRoute_def ex_Parse_def raw_target_def HasPrefix_def idx Let_def)
  show ?thesis
    using add stored idx
      shardIdx_partition [of "''a.z''" ex_manager ex_Parse 7 "''127.0.0.1:8080''"
        "apply_ops ex_Parse ex_manager [OpAdd ''a.z'' ''127.0.0.1:8080'' 7]" 94 False
        "[OpAdd ''a.z'' ''127.0.0.1:8080'' 7]" 93]
    by simp
qed

lemma http_has_scheme: "spec_has_scheme (''http://'' @ r)"
  by (simp add: spec_has_scheme_def is_scheme_char_def is_alpha_def HasPrefix_def)

lemma https_has_scheme: "spec_has_scheme (''https://'' @ r)"
  by (simp add: spec_has_scheme_def is_scheme_char_def is_alpha_def HasPrefix_def)


lemma HasPrefix_has_scheme:
  assumes "HasPrefix t ''http://'' \<or> HasPrefix t ''https://''"
  shows "spec_has_scheme t"
  using assms
proof
  assume "HasPrefix t ''http://''"
  then obtain r where "t = ''http://'' @ r"
    unfolding HasPrefix_prefix by (rule prefixE)
  then show ?thesis by (simp only: http_has_scheme)
next
  assume "HasPrefix t ''https://''"
  then obtain r where "t = ''https://'' @ r"
    unfolding HasPrefix_prefix by (rule prefixE)
  then show ?thesis by (simp only: https_has_scheme)
qed

lemma raw_target_spec_normalize:
  "raw_target t = spec_normalize t \<longleftrightarrow>
     (spec_has_scheme t \<longrightarrow> HasPrefix t ''http://'' \<or> HasPrefix t ''https://'')"
proof (cases "HasPrefix t ''http://'' \<or> HasPrefix t ''https://''")
  case True
  from HasPrefix_has_scheme [OF True] True show ?thesis
    by (simp add: raw_target_def spec_normalize_def)
next
  case False
  have "length (''http://'' @ t) \<noteq> length t" by simp
  then have "''http://'' @ t \<noteq> t" by (metis (no_types))
  with False show ?thesis
    by (simp add: raw_target_def spec_normalize_def)
qed

text \<open>
  C3, as the code has it. After a successful install of \<open>h\<close> with target \<open>t\<close>, and
  any writes to other hosts, a lookup of \<open>h\<close> returns an entry whose target URL is the
  parse of the normalised \<open>t\<close>: \<open>t\<close> itself when it starts with \<open>http://\<close> or
  \<open>https://\<close>, otherwise \<open>http://\<close> followed by \<open>t\<close>. This is the normalisation
  of the specification exactly when \<open>t\<close> has no scheme or starts with \<open>http://\<close> or
  \<open>https://\<close>. After a remove of \<open>h\<close>, and any writes to other hosts, a lookup of
  \<open>h\<close> misses.
\<close>

theorem lookup_after_install:
  assumes add: "AddRoute Parse now m h t = Inr m1"
    and ops: "\<forall>x \<in> set ops. op_host x \<noteq> h"
    and ops': "\<forall>x \<in> set ops'. op_host x \<noteq> h"
  shows "(\<exists>e. GetEntry (apply_ops Parse m1 ops) h = Some e \<and> Parse (raw_target t) = Inr (TargetURL e))
       \<and> raw_target t = (if prefix ''http://'' t \<or> prefix ''https://'' t then t else ''http://'' @ t)
       \<and> (raw_target t = spec_normalize t) =
           (spec_has_scheme t \<longrightarrow> HasPrefix t ''http://'' \<or> HasPrefix t ''https://'')
       \<and> GetEntry (apply_ops Parse (RemoveRoute (apply_ops Parse m1 ops) h) ops') h = None"
proof -
  have "GetEntry (apply_ops Parse m1 ops) h = GetEntry m1 h"
    using ops by (rule GetEntry_apply_ops_other)
  with GetEntry_AddRoute_same [OF add]
  have 1: "\<exists>e. GetEntry (apply_ops Parse m1 ops) h = Some e \<and> Parse (raw_target t) = Inr (TargetURL e)"
    by simp
  have 2: "raw_target t = (if prefix ''http://'' t \<or> prefix ''https://'' t then t else ''http://'' @ t)"
    by (simp add: raw_target_def HasPrefix_prefix)
  have "GetEntry (apply_ops Parse (RemoveRoute (apply_ops Parse m1 ops) h) ops') h
      = GetEntry (RemoveRoute (apply_ops Parse m1 ops) h) h"
    using ops' by (rule GetEntry_apply_ops_other)
  then have 3: "GetEntry (apply_ops Parse (RemoveRoute (apply_ops Parse m1 ops) h) ops') h = None"
    by (simp add: GetEntry_RemoveRoute)
  note 4 = raw_target_spec_normalize [of t]
  from 1 2 3 4 show ?thesis by blast
qed

theorem lookup_after_install_witness:
  "AddRoute ex_Parse 7 ex_manager ''a.z'' ''127.0.0.1:8080''
     = Inr (apply_ops ex_Parse ex_manager [OpAdd ''a.z'' ''127.0.0.1:8080'' 7])
   \<and> ''a.z'' \<notin> set (map op_host [OpAdd ''b.z'' ''10.0.0.1:1'' 8, OpRemove ''c.z''])
   \<and> ''a.z'' \<notin> set (map op_host [OpAdd ''b.z'' ''https://b'' 9])
   \<and> (\<exists>e. GetEntry (apply_ops ex_Parse
               (apply_ops ex_Parse ex_manager [OpAdd ''a.z'' ''127.0.0.1:8080'' 7])
               [OpAdd ''b.z'' ''10.0.0.1:1'' 8, OpRemove ''c.z'']) ''a.z'' = Some e
          \<and> TargetURL e = ''http://127.0.0.1:8080'')
   \<and> \<not> spec_has_scheme ''127.0.0.1:8080''
   \<and> raw_target ''127.0.0.1:8080'' = spec_normalize ''127.0.0.1:8080''
   \<and> GetEntry (apply_ops ex_Parse
         (RemoveRoute (apply_ops ex_Parse
            (apply_ops ex_Parse ex_manager [OpAdd ''a.z'' ''127.0.0.1:8080'' 7])
            [OpAdd ''b.z'' ''10.0.0.1:1'' 8, OpRemove ''c.z'']) ''a.z'')
         [OpAdd ''b.z'' ''https://b'' 9]) ''a.z'' = None"
proof -
  have add: "AddRoute ex_Parse 7 ex_manager ''a.z'' ''127.0.0.1:8080''
     = Inr (apply_ops ex_Parse ex_manager [OpAdd ''a.z'' ''127.0.0.1:8080'' 7])"
    by (simp add: apply_ops_def AddRoute_def ex_Parse_def raw_target_def HasPrefix_def Let_def)
  have ops: "\<forall>x \<in> set [OpAdd ''b.z'' ''10.0.0.1:1'' 8, OpRemove ''c.z'']. op_host x \<noteq> ''a.z''"
    by simp
  have ops': "\<forall>x \<in> set [OpAdd ''b.z'' ''https://b'' 9]. op_host x \<noteq> ''a.z''"
    by simp
  have raw: "raw_target ''127.0.0.1:8080'' = ''http://127.0.0.1:8080''"
    by (simp add: raw_target_def HasPrefix_def)
  have ns: "\<not> spec_has_scheme ''127.0.0.1:8080''"
    by (simp add: spec_has_scheme_def is_scheme_char_def is_alpha_def HasPrefix_def)
  show ?thesis
    using add ops ops' ns lookup_after_install [OF add ops ops']
    by (auto simp: raw ex_Parse_def)
qed

text \<open>
  C3, as the specification states it, fails for a target with a scheme other than
  \<open>http\<close> or \<open>https\<close> in lower case. The installs of \<open>ftp://h:21\<close> and of
  \<open>HTTP://x\<close> succeed; both targets have a scheme, and the stored target URL is the
  target with \<open>http://\<close> put before it.
\<close>

theorem scheme_prefix_counterexample:
  "spec_has_scheme ''ftp://h:21''
   \<and> spec_normalize ''ftp://h:21'' = ''ftp://h:21''
   \<and> AddRoute ex_Parse 7 ex_manager ''a.z'' ''ftp://h:21''
        = Inr (apply_ops ex_Parse ex_manager [OpAdd ''a.z'' ''ftp://h:21'' 7])
   \<and> GetEntry (apply_ops ex_Parse ex_manager [OpAdd ''a.z'' ''ftp://h:21'' 7]) ''a.z''
        = Some \<lparr>TargetURL = ''http://ftp://h:21'', Proxy = ''http://ftp://h:21'', CreatedAt = 7\<rparr>
   \<and> ex_Parse (spec_normalize ''ftp://h:21'') \<noteq> Inr ''http://ftp://h:21''
   \<and> spec_has_scheme ''HTTP://x''
   \<and> spec_normalize ''HTTP://x'' = ''HTTP://x''
   \<and> GetEntry (apply_ops ex_Parse ex_manager [OpAdd ''a.z'' ''HTTP://x'' 7]) ''a.z''
        = Some \<lparr>TargetURL = ''http://HTTP://x'', Proxy = ''http://HTTP://x'', CreatedAt = 7\<rparr>
   \<and> ex_Parse (spec_normalize ''HTTP://x'') \<noteq> Inr ''http://HTTP://x''"
proof -
  have s1: "spec_has_scheme ''ftp://h:21''" and s2: "spec_has_scheme ''HTTP://x''"
    by (simp_all add: spec_has_scheme_def is_scheme_char_def is_alpha_def HasPrefix_def)
  have r1: "raw_target ''ftp://h:21'' = ''http://ftp://h:21''"
    and r2: "raw_target ''HTTP://x'' = ''http://HTTP://x''"
    by (simp_all add: raw_target_def HasPrefix_def)
  have a1: "AddRoute ex_Parse 7 ex_manager ''a.z'' ''ftp://h:21''
        = Inr (apply_ops ex_Parse ex_manager [OpAdd ''a.z'' ''ftp://h:21'' 7])"
    by (simp add: apply_ops_def AddRoute_def r1 ex_Parse_def Let_def)
  have g1: "GetEntry (apply_ops ex_Parse ex_manager [OpAdd ''a.z'' ''ftp://h:21'' 7]) ''a.z''
        = Some \<lparr>TargetURL = ''http://ftp://h:21'', Proxy = ''http://ftp://h:21'', CreatedAt = 7\<rparr>"
    by (simp add: apply_ops_def AddRoute_def r1 ex_Parse_def Let_def GetEntry_def)
  have g2: "GetEntry (apply_ops ex_Parse ex_manager [OpAdd ''a.z'' ''HTTP://x'' 7]) ''a.z''
        = Some \<lparr>TargetURL = ''http://HTTP://x'', Proxy = ''http://HTTP://x'', CreatedAt = 7\<rparr>"
    by (simp add: apply_ops_def AddRoute_def r2 ex_Parse_def Let_def GetEntry_def)
  from s1 s2 a1 g1 g2 show ?thesis
    by (simp add: spec_normalize_def ex_Parse_def)
qed

section \<open>The HTTP front door\<close>

text \<open>
  C5. The lookup key is the request's host up to its first colon. With a non-empty zone
  and a key that does not end with a dot followed by the zone, the handler answers 400
  with the message \<open>invalid host\<close> and looks nothing up; otherwise it looks the key up
  once, and answers 404 when the lookup misses.
\<close>

theorem front_door_zone_check:
  "(zn \<noteq> [] \<and> \<not> suffix (''.'' @ zn) (takeWhile (\<lambda>c. c \<noteq> CHR '':'') rHost) \<longrightarrow>
      response (FastProxyHandler m zn rHost) = HttpError ''invalid host'' 400
      \<and> status_code (response (FastProxyHandler m zn rHost)) = Some 400
      \<and> lookups (FastProxyHandler m zn rHost) = [])
   \<and> (zn = [] \<or> suffix (''.'' @ zn) (takeWhile (\<lambda>c. c \<noteq> CHR '':'') rHost) \<longrightarrow>
      lookups (FastProxyHandler m zn rHost) = [takeWhile (\<lambda>c. c \<noteq> CHR '':'') rHost]
      \<and> (GetEntry m (takeWhile (\<lambda>c. c \<noteq> CHR '':'') rHost) = None \<longrightarrow>
           response (FastProxyHandler m zn rHost) = HttpNotFound
           \<and> status_code (response (FastProxyHandler m zn rHost)) = Some 404))"
  by (auto simp: FastProxyHandler_def strip_port_takeWhile HasSuffix_suffix Let_def
      split: option.splits)

theorem front_door_zone_check_witness:
  "(''example.test'' \<noteq> [] \<and> \<not> suffix (''.'' @ ''example.test'')
       (takeWhile (\<lambda>c. c \<noteq> CHR '':'') ''foo.other.test:8080''))
   \<and> response (FastProxyHandler ex_manager ''example.test'' ''foo.other.test:8080'')
        = HttpError ''invalid host'' 400
   \<and> lookups (FastProxyHandler ex_manager ''example.test'' ''foo.other.test:8080'') = []
   \<and> suffix (''.'' @ ''example.test'') (takeWhile (\<lambda>c. c \<noteq> CHR '':'') ''ghost.example.test:8080'')
   \<and> GetEntry ex_manager (takeWhile (\<lambda>c. c \<noteq> CHR '':'') ''ghost.example.test:8080'') = None
   \<and> lookups (FastProxyHandler ex_manager ''example.test'' ''ghost.example.test:8080'')
        = [''ghost.example.test'']
   \<and> status_code (response (FastProxyHandler ex_manager ''example.test'' ''ghost.example.test:8080''))
        = Some 404"
proof -
  have bad: "''example.test'' \<noteq> [] \<and> \<not> suffix (''.'' @ ''example.test'')
       (takeWhile (\<lambda>c. c \<noteq> CHR '':'') ''foo.other.test:8080'')"
    by (simp add: suffix_to_prefix)
  have good: "suffix (''.'' @ ''example.test'') (takeWhile (\<lambda>c. c \<noteq> CHR '':'') ''ghost.example.test:8080'')"
    by (simp add: suffix_to_prefix)
  have miss: "GetEntry ex_manager (takeWhile (\<lambda>c. c \<noteq> CHR '':'') ''ghost.example.test:8080'') = None"
    by (simp add: GetEntry_def ex_manager_def NewShardedRouteManager_def)
  have key: "takeWhile (\<lambda>c. c \<noteq> CHR '':'') ''ghost.example.test:8080'' = ''ghost.example.test''"
    by simp
  show ?thesis
    using bad good miss
      front_door_zone_check [of "''example.test''" "''foo.other.test:8080''" ex_manager]
      front_door_zone_check [of "''example.test''" "''ghost.example.test:8080''" ex_manager]
    unfolding key by blast
qed

lemma length_PutUint32: "length (BigEndian_PutUint32 v) = 4"
  by (simp add: BigEndian_PutUint32_def)

lemma Uint32_PutUint32: "BigEndian_Uint32 (BigEndian_PutUint32 v) = v"
proof (rule bit_word_eqI)
  fix n
  assume n: "n < LENGTH(32)"
  consider "n < 8" | "8 \<le> n" "n < 16" | "16 \<le> n" "n < 24" | "24 \<le> n"
    by linarith
  then show "bit (BigEndian_Uint32 (BigEndian_PutUint32 v)) n = bit v n"
    using n by cases (auto simp: BigEndian_Uint32_def BigEndian_PutUint32_def bit_simps)
qed

lemma parseForwardPort_malformed:
  "length payload < 4 \<or> length payload < 4 + unat (BigEndian_Uint32 (take 4 payload)) + 4
   \<Longrightarrow> \<exists>err. parseForwardPort payload = Inl err"
  by (auto simp: parseForwardPort_def Let_def)

lemma parseForwardPort_wellformed:
  "4 + unat (BigEndian_Uint32 (take 4 payload)) + 4 \<le> length payload
   \<Longrightarrow> parseForwardPort payload =
       Inr (Sprintf_d (unat (BigEndian_Uint32
              (take 4 (drop (4 + unat (BigEndian_Uint32 (take 4 payload))) payload)))))"
  by (auto simp: parseForwardPort_def Let_def)

lemma raw_target_loopback: "raw_target (''127.0.0.1:'' @ p) = ''http://127.0.0.1:'' @ p"
  by (simp add: raw_target_def HasPrefix_def)

section \<open>The SSH global requests\<close>

text \<open>
  C6. A \<open>tcpip-forward\<close> or \<open>cancel-tcpip-forward\<close> request whose payload has fewer
  than 4 bytes, or fewer than \<open>4 + L + 4\<close> bytes for the big-endian length \<open>L\<close> in its
  first four bytes, is answered \<open>false\<close>; \<^verbatim>\<open>net.Listen\<close> is not called, and the
  listeners, the route table and the bookkeeping are what they were.
\<close>

theorem malformed_payload_no_effect:
  assumes bad: "length (Payload req) < 4 \<or>
                length (Payload req) < 4 + unat (BigEndian_Uint32 (take 4 (Payload req))) + 4"
    and ty: "Type req = ''tcpip-forward'' \<or> Type req = ''cancel-tcpip-forward''"
  shows "handle_request Parse now listen_result username w req
           = (w, \<lparr>reply_ok = False, reply_payload = [], listen_call = None\<rparr>)"
proof -
  from parseForwardPort_malformed [OF bad] obtain err where "parseForwardPort (Payload req) = Inl err" ..
  with ty show ?thesis
    by (auto simp: handle_request_def handle_forward_def handle_cancel_def)
qed

theorem malformed_payload_no_effect_witness:
  "length (Payload \<lparr>Type = ''tcpip-forward'', Payload = [0, 0, 7]\<rparr>) < 4
   \<and> Type \<lparr>Type = ''tcpip-forward'', Payload = [0, 0, 7]\<rparr> = ''tcpip-forward''
   \<and> handle_request ex_Parse 7 (Some 40001) ''alice'' ex_world
        \<lparr>Type = ''tcpip-forward'', Payload = [0, 0, 7]\<rparr>
        = (ex_world, \<lparr>reply_ok = False, reply_payload = [], listen_call = None\<rparr>)
   \<and> length (Payload \<lparr>Type = ''cancel-tcpip-forward'', Payload = [0, 0, 0, 5, 1, 2, 3, 4, 5, 6, 7, 8]\<rparr>)
        < 4 + unat (BigEndian_Uint32 (take 4
            (Payload \<lparr>Type = ''cancel-tcpip-forward'', Payload = [0, 0, 0, 5, 1, 2, 3, 4, 5, 6, 7, 8]\<rparr>))) + 4
   \<and> handle_request ex_Parse 7 None ''alice'' ex_world
        \<lparr>Type = ''cancel-tcpip-forward'', Payload = [0, 0, 0, 5, 1, 2, 3, 4, 5, 6, 7, 8]\<rparr>
        = (ex_world, \<lparr>reply_ok = False, reply_payload = [], listen_call = None\<rparr>)"
proof -
  have short: "length (Payload \<lparr>Type = ''tcpip-forward'', Payload = [0, 0, 7]\<rparr>) < 4"
    by simp
  have trunc: "length (Payload \<lparr>Type = ''cancel-tcpip-forward'', Payload = [0, 0, 0, 5, 1, 2, 3, 4, 5, 6, 7, 8]\<rparr>)
        < 4 + unat (BigEndian_Uint32 (take 4
            (Payload \<lparr>Type = ''cancel-tcpip-forward'', Payload = [0, 0, 0, 5, 1, 2, 3, 4, 5, 6, 7, 8]\<rparr>))) + 4"
    by (simp add: BigEndian_Uint32_def)
  show ?thesis
    using short trunc
      malformed_payload_no_effect [of "\<lparr>Type = ''tcpip-forward'', Payload = [0, 0, 7]\<rparr>"
        ex_Parse 7 "Some 40001" "''alice''" ex_world]
      malformed_payload_no_effect [of "\<lparr>Type = ''cancel-tcpip-forward'', Payload = [0, 0, 0, 5, 1, 2, 3, 4, 5, 6, 7, 8]\<rparr>"
        ex_Parse 7 None "''alice''" ex_world]
    by simp
qed

lemma client_payload_wellformed:
  "4 + unat (BigEndian_Uint32 (take 4 (client_payload p))) + 4 \<le> length (client_payload p)"
  by (simp add: client_payload_def BigEndian_PutUint32_def BigEndian_Uint32_def)

lemma client_payload_port:
  "BigEndian_Uint32 (take 4 (drop (4 + unat (BigEndian_Uint32 (take 4 (client_payload p))))
     (client_payload p))) = of_nat p"
proof -
  have "unat (BigEndian_Uint32 (take 4 (client_payload p))) = 7"
    by (simp add: client_payload_def BigEndian_PutUint32_def BigEndian_Uint32_def)
  moreover have "take 4 (drop 11 (client_payload p)) = BigEndian_PutUint32 (of_nat p)"
    by (simp add: client_payload_def BigEndian_PutUint32_def)
  ultimately show ?thesis
    by (simp add: Uint32_PutUint32)
qed

lemma parse_client_payload:
  "p < 2 ^ 32 \<Longrightarrow> parseForwardPort (client_payload p) = Inr (Sprintf_d p)"
proof -
  assume "p < 2 ^ 32"
  then have "unat (of_nat p :: uint32) = p"
    by (simp add: unat_of_nat)
  then show ?thesis
    using parseForwardPort_wellformed [OF client_payload_wellformed, of p]
    by (simp add: client_payload_port)
qed

text \<open>
  C7. A \<open>cancel-tcpip-forward\<close> with a well-formed payload whose user and port have no
  entry in the bookkeeping is answered \<open>true\<close> and changes nothing: the route table,
  the bookkeeping and the listeners are what they were.
\<close>

theorem cancel_unknown_idempotent:
  assumes wf: "4 + unat (BigEndian_Uint32 (take 4 (Payload req))) + 4 \<le> length (Payload req)"
    and port: "port = Sprintf_d (unat (BigEndian_Uint32
                 (take 4 (drop (4 + unat (BigEndian_Uint32 (take 4 (Payload req)))) (Payload req)))))"
    and ty: "Type req = ''cancel-tcpip-forward''"
    and unknown: "map_of (activeTunnelM (server w)) (username @ '':'' @ port) = None"
  shows "handle_request Parse now listen_result username w req
           = (w, \<lparr>reply_ok = True, reply_payload = [], listen_call = None\<rparr>)"
  using parseForwardPort_wellformed [OF wf] port ty unknown
  by (simp add: handle_request_def handle_cancel_def)

theorem cancel_unknown_idempotent_witness:
  "4 + unat (BigEndian_Uint32 (take 4 (Payload \<lparr>Type = ''cancel-tcpip-forward'', Payload = client_payload 40001\<rparr>))) + 4
     \<le> length (Payload \<lparr>Type = ''cancel-tcpip-forward'', Payload = client_payload 40001\<rparr>)
   \<and> Sprintf_d (unat (BigEndian_Uint32 (take 4 (drop (4 + unat (BigEndian_Uint32 (take 4
         (Payload \<lparr>Type = ''cancel-tcpip-forward'', Payload = client_payload 40001\<rparr>))))
         (Payload \<lparr>Type = ''cancel-tcpip-forward'', Payload = client_payload 40001\<rparr>))))) = ''40001''
   \<and> map_of (activeTunnelM (server ex_world)) (''alice'' @ '':'' @ ''40001'') = None
   \<and> handle_request ex_Parse 7 None ''alice'' ex_world
        \<lparr>Type = ''cancel-tcpip-forward'', Payload = client_payload 40001\<rparr>
        = (ex_world, \<lparr>reply_ok = True, reply_payload = [], listen_call = None\<rparr>)"
proof -
  let ?req = "\<lparr>Type = ''cancel-tcpip-forward'', Payload = client_payload 40001\<rparr>"
  have wf: "4 + unat (BigEndian_Uint32 (take 4 (Payload ?req))) + 4 \<le> length (Payload ?req)"
    using client_payload_wellformed [of 40001] by simp
  have port: "''40001'' = Sprintf_d (unat (BigEndian_Uint32
                 (take 4 (drop (4 + unat (BigEndian_Uint32 (take 4 (Payload ?req)))) (Payload ?req)))))"
    using client_payload_port [of 40001]
    by (simp add: Sprintf_d.simps digit_char_simps)
  have ty: "Type ?req = ''cancel-tcpip-forward''"
    by simp
  have unknown: "map_of (activeTunnelM (server ex_world)) (''alice'' @ '':'' @ ''40001'') = None"
    by (simp add: ex_world_def)
  from cancel_unknown_idempotent [OF wf port ty unknown, of ex_Parse 7 None] wf port [symmetric] unknown
  show ?thesis by simp
qed

lemma handle_forward_installed:
  assumes "parseForwardPort payload = Inr rp"
    and "AddRoute Parse now (manager (server w)) (u @ ''.'' @ zone (server w))
           (''127.0.0.1:'' @ Sprintf_d bp) = Inr m'"
  shows "handle_forward Parse now (Some bp) u w payload =
           (w\<lparr>listeners := listeners w @ [(bp, True)],
              server := (server w)\<lparr>manager := m',
                activeTunnelM := AList.update (u @ '':'' @ Sprintf_d bp) (u @ ''.'' @ zone (server w))
                  (activeTunnelM (server w))\<rparr>,
              acceptors := acceptors w @ [(length (listeners w), ''localhost'', ''3000'')]\<rparr>,
            \<lparr>reply_ok = True, reply_payload = BigEndian_PutUint32 (of_nat bp),
               listen_call = Some (''127.0.0.1:'' @ rp)\<rparr>)"
  using assms by (simp add: handle_forward_def Let_def)

lemma handle_forward_install_failed:
  assumes "parseForwardPort payload = Inr rp"
    and "AddRoute Parse now (manager (server w)) (u @ ''.'' @ zone (server w))
           (''127.0.0.1:'' @ Sprintf_d bp) = Inl err"
  shows "handle_forward Parse now (Some bp) u w payload =
           (w\<lparr>listeners := listeners w @ [(bp, False)]\<rparr>,
            \<lparr>reply_ok = False, reply_payload = [], listen_call = Some (''127.0.0.1:'' @ rp)\<rparr>)"
  using assms by (simp add: handle_forward_def Let_def close_listener_def)

lemma handle_forward_bind_failed:
  assumes "parseForwardPort payload = Inr rp"
  shows "handle_forward Parse now None u w payload =
           (w, \<lparr>reply_ok = False, reply_payload = [], listen_call = Some (''127.0.0.1:'' @ rp)\<rparr>)"
  using assms by (simp add: handle_forward_def)

text \<open>
  C4, as the code has it. A \<open>tcpip-forward\<close> request of user \<open>u\<close> with a well-formed
  payload for port \<open>p\<close> calls \<^verbatim>\<open>net.Listen\<close> on \<open>127.0.0.1:p\<close>. When the bind
  fails, the reply is \<open>false\<close> and nothing has changed. When the listener is bound to
  \<open>bound_port\<close> and the install succeeds, the route \<open>u.zone\<close> leads to
  \<open>127.0.0.1:bound_port\<close>, the bookkeeping has the key \<open>u:bound_port\<close>, and the reply
  is \<open>true\<close> with the four big-endian bytes of the bound port. When the install fails,
  the listener is closed, the reply is \<open>false\<close>, and the server is what it was.
\<close>

theorem tcpip_forward_handled:
  assumes wf: "4 + unat (BigEndian_Uint32 (take 4 (Payload req))) + 4 \<le> length (Payload req)"
    and p: "p = unat (BigEndian_Uint32
              (take 4 (drop (4 + unat (BigEndian_Uint32 (take 4 (Payload req)))) (Payload req))))"
    and ty: "Type req = ''tcpip-forward''"
    and step: "handle_request Parse now listen_result u w req = (w', out)"
    and host: "host = u @ ''.'' @ zone (server w)"
  shows "listen_call out = Some (''127.0.0.1:'' @ Sprintf_d p)
     \<and> (case listen_result of
           None \<Rightarrow> w' = w \<and> \<not> reply_ok out \<and> reply_payload out = []
         | Some bound_port \<Rightarrow>
            (case AddRoute Parse now (manager (server w)) host (''127.0.0.1:'' @ Sprintf_d bound_port) of
               Inr m' \<Rightarrow>
                 listeners w' = listeners w @ [(bound_port, True)]
                 \<and> manager (server w') = m'
                 \<and> (\<exists>e. GetEntry (manager (server w')) host = Some e
                        \<and> Parse (''http://127.0.0.1:'' @ Sprintf_d bound_port) = Inr (TargetURL e))
                 \<and> map_of (activeTunnelM (server w')) (u @ '':'' @ Sprintf_d bound_port) = Some host
                 \<and> reply_ok out
                 \<and> length (reply_payload out) = 4
                 \<and> BigEndian_Uint32 (reply_payload out) = of_nat bound_port
             | Inl err \<Rightarrow>
                 listeners w' = listeners w @ [(bound_port, False)]
                 \<and> \<not> reply_ok out \<and> reply_payload out = []
                 \<and> server w' = server w \<and> acceptors w' = acceptors w))"
proof (cases listen_result)
  case None
  have parse: "parseForwardPort (Payload req) = Inr (Sprintf_d p)"
    using parseForwardPort_wellformed [OF wf] p by simp
  from step ty None have "handle_forward Parse now None u w (Payload req) = (w', out)"
    by (simp add: handle_request_def)
  with handle_forward_bind_failed [OF parse, of Parse now u w] None show ?thesis
    by auto
next
  case (Some bound_port)
  have parse: "parseForwardPort (Payload req) = Inr (Sprintf_d p)"
    using parseForwardPort_wellformed [OF wf] p by simp
  from step ty Some have fw: "handle_forward Parse now (Some bound_port) u w (Payload req) = (w', out)"
    by (simp add: handle_request_def)
  show ?thesis
  proof (cases "AddRoute Parse now (manager (server w)) host (''127.0.0.1:'' @ Sprintf_d bound_port)")
    case (Inl err)
    with fw handle_forward_install_failed [OF parse, of Parse now w u bound_port err] host Some
    show ?thesis by auto
  next
    case (Inr m')
    from GetEntry_AddRoute_same [OF Inr]
    have entry: "\<exists>e. GetEntry m' host = Some e
        \<and> Parse (''http://127.0.0.1:'' @ Sprintf_d bound_port) = Inr (TargetURL e)"
      by (simp only: raw_target_loopback)
    from fw handle_forward_installed [OF parse, of Parse now w u bound_port m'] Inr host
    have w': "w' = w\<lparr>listeners := listeners w @ [(bound_port, True)],
              server := (server w)\<lparr>manager := m',
                activeTunnelM := AList.update (u @ '':'' @ Sprintf_d bound_port) host
                  (activeTunnelM (server w))\<rparr>,
              acceptors := acceptors w @ [(length (listeners w), ''localhost'', ''3000'')]\<rparr>"
      and out: "out = \<lparr>reply_ok = True, reply_payload = BigEndian_PutUint32 (of_nat bound_port),
               listen_call = Some (''127.0.0.1:'' @ Sprintf_d p)\<rparr>"
      by simp_all
    show ?thesis
      using entry Inr Some by (simp add: w' out update_conv length_PutUint32 Uint32_PutUint32)
  qed
qed

theorem tcpip_forward_handled_witness:
  "4 + unat (BigEndian_Uint32 (take 4 (Payload (ex_forward_req 0)))) + 4
     \<le> length (Payload (ex_forward_req 0))
   \<and> unat (BigEndian_Uint32 (take 4 (drop (4 + unat (BigEndian_Uint32 (take 4
         (Payload (ex_forward_req 0))))) (Payload (ex_forward_req 0))))) = 0
   \<and> Type (ex_forward_req 0) = ''tcpip-forward''
   \<and> listen_call (snd (handle_request ex_Parse 7 (Some 40001) ''alice'' ex_world (ex_forward_req 0)))
        = Some ''127.0.0.1:0''
   \<and> listeners (fst (handle_request ex_Parse 7 (Some 40001) ''alice'' ex_world (ex_forward_req 0)))
        = [(40001, True)]
   \<and> map_of (activeTunnelM (server (fst (handle_request ex_Parse 7 (Some 40001) ''alice'' ex_world
        (ex_forward_req 0))))) ''alice:40001'' = Some ''alice.example.test''
   \<and> reply_ok (snd (handle_request ex_Parse 7 (Some 40001) ''alice'' ex_world (ex_forward_req 0)))
   \<and> BigEndian_Uint32 (reply_payload (snd (handle_request ex_Parse 7 (Some 40001) ''alice'' ex_world
        (ex_forward_req 0)))) = 40001
   \<and> listeners (fst (handle_request ex_Parse_fail 7 (Some 40001) ''alice'' ex_world (ex_forward_req 0)))
        = [(40001, False)]
   \<and> \<not> reply_ok (snd (handle_request ex_Parse_fail 7 (Some 40001) ''alice'' ex_world (ex_forward_req 0)))
   \<and> server (fst (handle_request ex_Parse_fail 7 (Some 40001) ''alice'' ex_world (ex_forward_req 0)))
        = server ex_world
   \<and> fst (handle_request ex_Parse 7 None ''alice'' ex_world (ex_forward_req 0)) = ex_world
   \<and> \<not> reply_ok (snd (handle_request ex_Parse 7 None ''alice'' ex_world (ex_forward_req 0)))"
proof -
  let ?req = "ex_forward_req 0"
  have wf: "4 + unat (BigEndian_Uint32 (take 4 (Payload ?req))) + 4 \<le> length (Payload ?req)"
    using client_payload_wellformed [of 0] by (simp add: ex_forward_req_def)
  have p: "0 = unat (BigEndian_Uint32
              (take 4 (drop (4 + unat (BigEndian_Uint32 (take 4 (Payload ?req)))) (Payload ?req))))"
    using client_payload_port [of 0] by (simp add: ex_forward_req_def)
  have ty: "Type ?req = ''tcpip-forward''"
    by (simp add: ex_forward_req_def)
  have port: "Sprintf_d 40001 = ''40001''" "Sprintf_d 0 = ''0''"
    by (simp_all add: Sprintf_d.simps digit_char_simps)
  have ok: "AddRoute ex_Parse 7 ex_manager ''alice.example.test'' ''127.0.0.1:40001''
      = Inr (apply_ops ex_Parse ex_manager [OpAdd ''alice.example.test'' ''127.0.0.1:40001'' 7])"
    by (simp add: apply_ops_def AddRoute_def ex_Parse_def raw_target_def HasPrefix_def Let_def)
  have bad: "AddRoute ex_Parse_fail 7 ex_manager ''alice.example.test'' ''127.0.0.1:40001''
      = Inl ()"
    by (simp add: AddRoute_def ex_Parse_fail_def)
  have ex: "manager (server ex_world) = ex_manager" "listeners ex_world = []"
    by (simp_all add: ex_world_def)
  have z: "''alice'' @ ''.'' @ zone (server ex_world) = ''alice.example.test''"
    by (simp add: ex_world_def)
  note a = tcpip_forward_handled [OF wf p ty prod.collapse [symmetric] z [symmetric],
      of ex_Parse 7 "Some 40001"]
  note b = tcpip_forward_handled [OF wf p ty prod.collapse [symmetric] z [symmetric],
      of ex_Parse_fail 7 "Some 40001"]
  note c = tcpip_forward_handled [OF wf p ty prod.collapse [symmetric] z [symmetric],
      of ex_Parse 7 None]
  show ?thesis
    using wf p [symmetric] ty a b c
    by (simp add: port ok bad ex)
qed

text \<open>
  C4, as the specification states it, fails when the bind fails: alice's well-formed
  request for port 70000, which is no TCP port, meets a \<^verbatim>\<open>net.Listen\<close> that returns an
  error; the reply is \<open>false\<close>, and no listener, route or bookkeeping entry exists
  afterwards.
\<close>

theorem tcpip_forward_bind_failure_counterexample:
  "parseForwardPort (Payload (ex_forward_req 70000)) = Inr ''70000''
   \<and> handle_request ex_Parse 7 None ''alice'' ex_world (ex_forward_req 70000)
        = (ex_world, \<lparr>reply_ok = False, reply_payload = [], listen_call = Some ''127.0.0.1:70000''\<rparr>)
   \<and> listeners ex_world = []
   \<and> activeTunnelM (server ex_world) = []
   \<and> GetEntry (manager (server ex_world)) ''alice.example.test'' = None"
proof -
  have parse: "parseForwardPort (client_payload 70000) = Inr ''70000''"
    using parse_client_payload [of 70000] by (simp add: Sprintf_d.simps digit_char_simps)
  have "handle_request ex_Parse 7 None ''alice'' ex_world (ex_forward_req 70000)
        = (ex_world, \<lparr>reply_ok = False, reply_payload = [], listen_call = Some ''127.0.0.1:70000''\<rparr>)"
    using handle_forward_bind_failed [OF parse, of ex_Parse 7 "''alice''" ex_world]
    by (simp add: handle_request_def ex_forward_req_def)
  with parse show ?thesis
    by (simp add: ex_forward_req_def ex_world_def ex_manager_def NewShardedRouteManager_def GetEntry_def)
qed

lemma handle_forward_replied_ok:
  assumes step: "handle_forward Parse now (Some bp) u w payload = (w', out)"
    and ok: "reply_ok out"
  obtains m' where
    "AddRoute Parse now (manager (server w)) (u @ ''.'' @ zone (server w))
       (''127.0.0.1:'' @ Sprintf_d bp) = Inr m'"
    "w' = w\<lparr>listeners := listeners w @ [(bp, True)],
              server := (server w)\<lparr>manager := m',
                activeTunnelM := AList.update (u @ '':'' @ Sprintf_d bp) (u @ ''.'' @ zone (server w))
                  (activeTunnelM (server w))\<rparr>,
              acceptors := acceptors w @ [(length (listeners w), ''localhost'', ''3000'')]\<rparr>"
proof (cases "parseForwardPort payload")
  case (Inl err)
  with step have "out = \<lparr>reply_ok = False, reply_payload = [], listen_call = None\<rparr>"
    by (simp add: handle_forward_def)
  with ok show ?thesis by simp
next
  case parsed: (Inr rp)
  show ?thesis
  proof (cases "AddRoute Parse now (manager (server w)) (u @ ''.'' @ zone (server w))
       (''127.0.0.1:'' @ Sprintf_d bp)")
    case (Inl err)
    from handle_forward_install_failed [OF parsed Inl] step
    have "out = \<lparr>reply_ok = False, reply_payload = [], listen_call = Some (''127.0.0.1:'' @ rp)\<rparr>"
      by simp
    with ok show ?thesis by simp
  next
    case (Inr m')
    from handle_forward_installed [OF parsed Inr] step
    have "w' = w\<lparr>listeners := listeners w @ [(bp, True)],
              server := (server w)\<lparr>manager := m',
                activeTunnelM := AList.update (u @ '':'' @ Sprintf_d bp) (u @ ''.'' @ zone (server w))
                  (activeTunnelM (server w))\<rparr>,
              acceptors := acceptors w @ [(length (listeners w), ''localhost'', ''3000'')]\<rparr>"
      by simp
    with Inr show ?thesis by (rule that)
  qed
qed

lemma handle_cancel_known:
  assumes "parseForwardPort payload = Inr port"
    and "map_of (activeTunnelM (server w)) (u @ '':'' @ port) = Some hostStr"
  shows "handle_cancel u w payload =
           (w\<lparr>server := (server w)\<lparr>manager := RemoveRoute (manager (server w)) hostStr,
                 activeTunnelM := AList.delete (u @ '':'' @ port) (activeTunnelM (server w))\<rparr>\<rparr>,
            \<lparr>reply_ok = True, reply_payload = [], listen_call = None\<rparr>)"
  using assms by (simp add: handle_cancel_def)

lemma AddRoute_entry:
  "AddRoute Parse now m h t = Inr m' \<Longrightarrow>
   \<exists>url. Parse (raw_target t) = Inr url
     \<and> GetEntry m' h = Some \<lparr>TargetURL = url, Proxy = url, CreatedAt = now\<rparr>"
  by (auto simp: AddRoute_def GetEntry_def Let_def split: sum.splits)

text \<open>
  C10. The route of a forward is keyed by \<open>u.zone\<close>, whatever the port. When user \<open>u\<close>
  has two forwards accepted on the ports \<open>P1\<close> and \<open>P2\<close>, the second install replaces
  the entry of the first, both forwards are in the bookkeeping, and a cancel for either
  port removes the one route of \<open>u\<close> while the other forward stays recorded.
\<close>

theorem one_route_per_user:
  assumes ne: "P1 \<noteq> P2"
    and f1: "handle_request Parse n1 (Some P1) u w req1 = (w1, o1)"
    and t1: "Type req1 = ''tcpip-forward''" and ok1: "reply_ok o1"
    and f2: "handle_request Parse n2 (Some P2) u w1 req2 = (w2, o2)"
    and t2: "Type req2 = ''tcpip-forward''" and ok2: "reply_ok o2"
    and tc: "Type creq = ''cancel-tcpip-forward''"
    and pc: "parseForwardPort (Payload creq) = Inr (Sprintf_d Pc)"
    and Pc: "(Pc = P1 \<and> Po = P2) \<or> (Pc = P2 \<and> Po = P1)"
    and c3: "handle_request Parse n3 listen_result u w2 creq = (w3, o3)"
    and host: "host = u @ ''.'' @ zone (server w)"
  shows "(\<exists>url. Parse (''http://127.0.0.1:'' @ Sprintf_d P1) = Inr url
            \<and> GetEntry (manager (server w1)) host = Some \<lparr>TargetURL = url, Proxy = url, CreatedAt = n1\<rparr>)
       \<and> (\<exists>url. Parse (''http://127.0.0.1:'' @ Sprintf_d P2) = Inr url
            \<and> GetEntry (manager (server w2)) host = Some \<lparr>TargetURL = url, Proxy = url, CreatedAt = n2\<rparr>)
       \<and> map_of (activeTunnelM (server w2)) (u @ '':'' @ Sprintf_d P1) = Some host
       \<and> map_of (activeTunnelM (server w2)) (u @ '':'' @ Sprintf_d P2) = Some host
       \<and> reply_ok o3
       \<and> GetEntry (manager (server w3)) host = None
       \<and> map_of (activeTunnelM (server w3)) (u @ '':'' @ Sprintf_d Pc) = None
       \<and> map_of (activeTunnelM (server w3)) (u @ '':'' @ Sprintf_d Po) = Some host"
proof -
  let ?k1 = "u @ '':'' @ Sprintf_d P1" and ?k2 = "u @ '':'' @ Sprintf_d P2"
  have keys: "?k1 \<noteq> ?k2"
  proof
    assume "?k1 = ?k2"
    then have "Sprintf_d P1 = Sprintf_d P2" by simp
    then have "P1 = P2" by (rule Sprintf_d_inj)
    with ne show False by simp
  qed
  from f1 t1 have "handle_forward Parse n1 (Some P1) u w (Payload req1) = (w1, o1)"
    by (simp add: handle_request_def)
  from this ok1 obtain m1 where
    a1: "AddRoute Parse n1 (manager (server w)) host (''127.0.0.1:'' @ Sprintf_d P1) = Inr m1"
    and w1: "w1 = w\<lparr>listeners := listeners w @ [(P1, True)],
              server := (server w)\<lparr>manager := m1,
                activeTunnelM := AList.update ?k1 host (activeTunnelM (server w))\<rparr>,
              acceptors := acceptors w @ [(length (listeners w), ''localhost'', ''3000'')]\<rparr>"
    unfolding host by (rule handle_forward_replied_ok)
  have z1: "zone (server w1) = zone (server w)"
    by (simp add: w1)
  from f2 t2 have "handle_forward Parse n2 (Some P2) u w1 (Payload req2) = (w2, o2)"
    by (simp add: handle_request_def)
  from this ok2 obtain m2 where
    a2: "AddRoute Parse n2 (manager (server w1)) host (''127.0.0.1:'' @ Sprintf_d P2) = Inr m2"
    and w2: "w2 = w1\<lparr>listeners := listeners w1 @ [(P2, True)],
              server := (server w1)\<lparr>manager := m2,
                activeTunnelM := AList.update ?k2 host (activeTunnelM (server w1))\<rparr>,
              acceptors := acceptors w1 @ [(length (listeners w1), ''localhost'', ''3000'')]\<rparr>"
    unfolding host z1 [symmetric] by (rule handle_forward_replied_ok)
  from AddRoute_entry [OF a1, unfolded raw_target_loopback]
  have e1: "\<exists>url. Parse (''http://127.0.0.1:'' @ Sprintf_d P1) = Inr url
            \<and> GetEntry (manager (server w1)) host = Some \<lparr>TargetURL = url, Proxy = url, CreatedAt = n1\<rparr>"
    by (simp add: w1)
  from AddRoute_entry [OF a2, unfolded raw_target_loopback]
  have e2: "\<exists>url. Parse (''http://127.0.0.1:'' @ Sprintf_d P2) = Inr url
            \<and> GetEntry (manager (server w2)) host = Some \<lparr>TargetURL = url, Proxy = url, CreatedAt = n2\<rparr>"
    by (simp add: w2)
  have b1: "map_of (activeTunnelM (server w2)) ?k1 = Some host"
    and b2: "map_of (activeTunnelM (server w2)) ?k2 = Some host"
    using keys by (simp_all add: w2 w1 update_conv)
  let ?kc = "u @ '':'' @ Sprintf_d Pc" and ?ko = "u @ '':'' @ Sprintf_d Po"
  from Pc b1 b2 have bc: "map_of (activeTunnelM (server w2)) ?kc = Some host"
    and bo: "map_of (activeTunnelM (server w2)) ?ko = Some host"
    by blast+
  from Pc keys have kco: "?ko \<noteq> ?kc"
    by metis
  from c3 tc have "handle_cancel u w2 (Payload creq) = (w3, o3)"
    by (simp add: handle_request_def)
  with handle_cancel_known [OF pc bc]
  have w3: "w3 = w2\<lparr>server := (server w2)\<lparr>manager := RemoveRoute (manager (server w2)) host,
                 activeTunnelM := AList.delete ?kc (activeTunnelM (server w2))\<rparr>\<rparr>"
    and o3: "o3 = \<lparr>reply_ok = True, reply_payload = [], listen_call = None\<rparr>"
    by simp_all
  have r3: "GetEntry (manager (server w3)) host = None"
    by (simp add: w3 GetEntry_RemoveRoute)
  have c3': "map_of (activeTunnelM (server w3)) ?kc = None"
    by (simp add: w3 delete_conv)
  have o3': "map_of (activeTunnelM (server w3)) ?ko = Some host"
    using bo kco by (simp add: w3 delete_conv)
  have ok3: "reply_ok o3"
    by (simp add: o3)
  from e1 e2 b1 b2 ok3 r3 c3' o3' show ?thesis
    by blast
qed

lemma ex_Parse_AddRoute:
  "AddRoute ex_Parse n m h (''127.0.0.1:'' @ x) =
     Inr (m\<lparr>shards := (shards m)(shardIdx h := (shards m (shardIdx h))(h \<mapsto>
       \<lparr>TargetURL = ''http://127.0.0.1:'' @ x, Proxy = ''http://127.0.0.1:'' @ x, CreatedAt = n\<rparr>))\<rparr>)"
  unfolding AddRoute_def raw_target_loopback by (simp add: ex_Parse_def Let_def)

lemma ex_forward_step:
  assumes "p < 2 ^ 32"
  shows "handle_request ex_Parse n (Some bp) u w (ex_forward_req p) =
           (w\<lparr>listeners := listeners w @ [(bp, True)],
              server := (server w)\<lparr>manager := (manager (server w))\<lparr>shards :=
                    (shards (manager (server w)))(shardIdx (u @ ''.'' @ zone (server w)) :=
                      (shards (manager (server w)) (shardIdx (u @ ''.'' @ zone (server w))))
                        (u @ ''.'' @ zone (server w) \<mapsto>
                          \<lparr>TargetURL = ''http://127.0.0.1:'' @ Sprintf_d bp,
                             Proxy = ''http://127.0.0.1:'' @ Sprintf_d bp, CreatedAt = n\<rparr>))\<rparr>,
                activeTunnelM := AList.update (u @ '':'' @ Sprintf_d bp) (u @ ''.'' @ zone (server w))
                  (activeTunnelM (server w))\<rparr>,
              acceptors := acceptors w @ [(length (listeners w), ''localhost'', ''3000'')]\<rparr>,
            \<lparr>reply_ok = True, reply_payload = BigEndian_PutUint32 (of_nat bp),
               listen_call = Some (''127.0.0.1:'' @ Sprintf_d p)\<rparr>)"
proof -
  have "handle_request ex_Parse n (Some bp) u w (ex_forward_req p)
      = handle_forward ex_Parse n (Some bp) u w (client_payload p)"
    by (simp add: handle_request_def ex_forward_req_def)
  also note handle_forward_installed [OF parse_client_payload [OF assms] ex_Parse_AddRoute]
  finally show ?thesis .
qed

lemma Sprintf_d_examples:
  "Sprintf_d 0 = ''0''" "Sprintf_d 40001 = ''40001''" "Sprintf_d 40002 = ''40002''"
  by (simp_all add: Sprintf_d.simps digit_char_simps)

lemma ex_world1_eq:
  "ex_world1 =
     \<lparr>server = \<lparr>manager = ex_manager\<lparr>shards := (shards ex_manager)(shardIdx ''alice.example.test'' :=
                    (shards ex_manager (shardIdx ''alice.example.test''))(''alice.example.test'' \<mapsto>
                      \<lparr>TargetURL = ''http://127.0.0.1:40001'', Proxy = ''http://127.0.0.1:40001'',
                         CreatedAt = 7\<rparr>))\<rparr>,
                 zone = ''example.test'',
                 activeTunnelM = [(''alice:40001'', ''alice.example.test'')],
                 srv_logRequests = False\<rparr>,
      listeners = [(40001, True)], acceptors = [(0, ''localhost'', ''3000'')]\<rparr>"
  unfolding ex_world1_def
  by (simp add: ex_forward_step Sprintf_d_examples ex_world_def)

lemma ex_cancel_step:
  assumes "p < 2 ^ 32"
  shows "handle_request Parse n lr u w (ex_cancel_req p) =
           ((case map_of (activeTunnelM (server w)) (u @ '':'' @ Sprintf_d p) of
               Some hostStr \<Rightarrow>
                 w\<lparr>server := (server w)\<lparr>manager := RemoveRoute (manager (server w)) hostStr,
                      activeTunnelM := AList.delete (u @ '':'' @ Sprintf_d p) (activeTunnelM (server w))\<rparr>\<rparr>
             | None \<Rightarrow> w),
            \<lparr>reply_ok = True, reply_payload = [], listen_call = None\<rparr>)"
  using parse_client_payload [OF assms]
  by (simp add: handle_request_def ex_cancel_req_def handle_cancel_def Let_def split: option.splits)

lemma ex_world2_eq:
  "ex_world2 =
     \<lparr>server = \<lparr>manager = ex_manager\<lparr>shards := (shards ex_manager)(shardIdx ''alice.example.test'' :=
                    (shards ex_manager (shardIdx ''alice.example.test''))(''alice.example.test'' \<mapsto>
                      \<lparr>TargetURL = ''http://127.0.0.1:40002'', Proxy = ''http://127.0.0.1:40002'',
                         CreatedAt = 8\<rparr>))\<rparr>,
                 zone = ''example.test'',
                 activeTunnelM = [(''alice:40001'', ''alice.example.test''),
                                  (''alice:40002'', ''alice.example.test'')],
                 srv_logRequests = False\<rparr>,
      listeners = [(40001, True), (40002, True)],
      acceptors = [(0, ''localhost'', ''3000''), (1, ''localhost'', ''3000'')]\<rparr>"
  unfolding ex_world2_def
  by (simp add: ex_forward_step Sprintf_d_examples ex_world1_eq)

lemma ex_world3_eq:
  "ex_world3 =
     \<lparr>server = \<lparr>manager = ex_manager\<lparr>shards := (shards ex_manager)(shardIdx ''alice.example.test'' :=
                    (shards ex_manager (shardIdx ''alice.example.test''))(''alice.example.test'' := None))\<rparr>,
                 zone = ''example.test'',
                 activeTunnelM = [(''alice:40002'', ''alice.example.test'')],
                 srv_logRequests = False\<rparr>,
      listeners = [(40001, True), (40002, True)],
      acceptors = [(0, ''localhost'', ''3000''), (1, ''localhost'', ''3000'')]\<rparr>"
  unfolding ex_world3_def
  by (simp add: ex_cancel_step Sprintf_d_examples ex_world2_eq RemoveRoute_def AList.delete_eq Let_def)

theorem one_route_per_user_witness:
  "(40001 :: nat) \<noteq> 40002
   \<and> Type (ex_forward_req 0) = ''tcpip-forward''
   \<and> reply_ok (snd (handle_request ex_Parse 7 (Some 40001) ''alice'' ex_world (ex_forward_req 0)))
   \<and> reply_ok (snd (handle_request ex_Parse 8 (Some 40002) ''alice'' ex_world1 (ex_forward_req 0)))
   \<and> Type (ex_cancel_req 40001) = ''cancel-tcpip-forward''
   \<and> parseForwardPort (Payload (ex_cancel_req 40001)) = Inr (Sprintf_d 40001)
   \<and> GetEntry (manager (server ex_world1)) ''alice.example.test''
        = Some \<lparr>TargetURL = ''http://127.0.0.1:40001'', Proxy = ''http://127.0.0.1:40001'', CreatedAt = 7\<rparr>
   \<and> GetEntry (manager (server ex_world2)) ''alice.example.test''
        = Some \<lparr>TargetURL = ''http://127.0.0.1:40002'', Proxy = ''http://127.0.0.1:40002'', CreatedAt = 8\<rparr>
   \<and> map_of (activeTunnelM (server ex_world2)) ''alice:40001'' = Some ''alice.example.test''
   \<and> map_of (activeTunnelM (server ex_world2)) ''alice:40002'' = Some ''alice.example.test''
   \<and> GetEntry (manager (server ex_world3)) ''alice.example.test'' = None
   \<and> map_of (activeTunnelM (server ex_world3)) ''alice:40001'' = None
   \<and> map_of (activeTunnelM (server ex_world3)) ''alice:40002'' = Some ''alice.example.test''"
proof -
  have ne: "(40001 :: nat) \<noteq> 40002" by simp
  have t: "Type (ex_forward_req 0) = ''tcpip-forward''"
    by (simp add: ex_forward_req_def)
  have ok1: "reply_ok (snd (handle_request ex_Parse 7 (Some 40001) ''alice'' ex_world (ex_forward_req 0)))"
    by (simp add: ex_forward_step)
  have ok2: "reply_ok (snd (handle_request ex_Parse 8 (Some 40002) ''alice'' ex_world1 (ex_forward_req 0)))"
    by (simp add: ex_forward_step)
  have f1: "handle_request ex_Parse 7 (Some 40001) ''alice'' ex_world (ex_forward_req 0)
      = (ex_world1, snd (handle_request ex_Parse 7 (Some 40001) ''alice'' ex_world (ex_forward_req 0)))"
    by (simp add: ex_world1_def)
  have f2: "handle_request ex_Parse 8 (Some 40002) ''alice'' ex_world1 (ex_forward_req 0)
      = (ex_world2, snd (handle_request ex_Parse 8 (Some 40002) ''alice'' ex_world1 (ex_forward_req 0)))"
    by (simp add: ex_world2_def)
  have c3: "handle_request ex_Parse 9 None ''alice'' ex_world2 (ex_cancel_req 40001)
      = (ex_world3, snd (handle_request ex_Parse 9 None ''alice'' ex_world2 (ex_cancel_req 40001)))"
    by (simp add: ex_world3_def)
  have tc: "Type (ex_cancel_req 40001) = ''cancel-tcpip-forward''"
    by (simp add: ex_cancel_req_def)
  have pc: "parseForwardPort (Payload (ex_cancel_req 40001)) = Inr (Sprintf_d 40001)"
    by (simp add: ex_cancel_req_def parse_client_payload)
  have Pc: "((40001 :: nat) = 40001 \<and> (40002 :: nat) = 40002) \<or> ((40001 :: nat) = 40002 \<and> (40002 :: nat) = 40001)"
    by simp
  have host: "''alice.example.test'' = ''alice'' @ ''.'' @ zone (server ex_world)"
    by (simp add: ex_world_def)
  from one_route_per_user [OF ne f1 t ok1 f2 t ok2 tc pc Pc c3 host] ne t ok1 ok2 tc pc
  show ?thesis
    by (simp add: Sprintf_d_examples ex_Parse_def)
qed

lemma teardown_entry_activeTunnelM:
  "activeTunnelM (teardown_entry u kv srv) =
     filter (\<lambda>e. \<not> (HasPrefix (fst kv) (u @ '':'') \<and> fst e = fst kv)) (activeTunnelM srv)"
proof (cases "HasPrefix (fst kv) (u @ '':'')")
  case True
  then have "activeTunnelM (teardown_entry u kv srv) = AList.delete (fst kv) (activeTunnelM srv)"
    by (simp add: teardown_entry_def)
  also have "\<dots> = filter (\<lambda>e. fst e \<noteq> fst kv) (activeTunnelM srv)"
    by (simp add: AList.delete_eq case_prod_unfold) (metis (no_types))
  finally show ?thesis using True by simp
next
  case False
  then show ?thesis by (simp add: teardown_entry_def)
qed

lemma fold_teardown_activeTunnelM:
  "activeTunnelM (fold (teardown_entry u) xs srv) =
     filter (\<lambda>e. \<not> (HasPrefix (fst e) (u @ '':'') \<and> fst e \<in> fst ` set xs)) (activeTunnelM srv)"
proof (induction xs arbitrary: srv)
  case Nil
  show ?case by simp
next
  case (Cons x xs)
  have "activeTunnelM (fold (teardown_entry u) (x # xs) srv) =
      filter (\<lambda>e. \<not> (HasPrefix (fst e) (u @ '':'') \<and> fst e \<in> fst ` set xs))
        (filter (\<lambda>e. \<not> (HasPrefix (fst x) (u @ '':'') \<and> fst e = fst x)) (activeTunnelM srv))"
    by (simp add: Cons.IH teardown_entry_activeTunnelM)
  also have "\<dots> = filter (\<lambda>e. \<not> (HasPrefix (fst e) (u @ '':'') \<and> fst e \<in> fst ` set (x # xs)))
      (activeTunnelM srv)"
    by (auto intro!: filter_cong)
  finally show ?case .
qed

lemma teardown_activeTunnelM:
  "activeTunnelM (server (teardown u w)) =
     filter (\<lambda>e. \<not> HasPrefix (fst e) (u @ '':'')) (activeTunnelM (server w))"
  unfolding teardown_def
  by (simp add: fold_teardown_activeTunnelM) (rule filter_cong, auto)

lemma teardown_entry_GetEntry:
  "GetEntry (manager (teardown_entry u kv srv)) h =
     (if HasPrefix (fst kv) (u @ '':'') \<and> snd kv = h then None else GetEntry (manager srv) h)"
  by (simp add: teardown_entry_def GetEntry_RemoveRoute)

lemma fold_teardown_GetEntry:
  "GetEntry (manager (fold (teardown_entry u) xs srv)) h =
     (if h \<in> set (map snd (filter (\<lambda>kv. HasPrefix (fst kv) (u @ '':'')) xs)) then None
      else GetEntry (manager srv) h)"
proof (induction xs arbitrary: srv)
  case Nil
  show ?case by simp
next
  case (Cons x xs)
  show ?case
    by (simp add: Cons.IH teardown_entry_GetEntry)
qed

lemma teardown_GetEntry:
  "GetEntry (manager (server (teardown u w))) h =
     (if h \<in> set (map snd (filter (\<lambda>kv. HasPrefix (fst kv) (u @ '':'')) (activeTunnelM (server w))))
      then None else GetEntry (manager (server w)) h)"
  unfolding teardown_def by (simp add: fold_teardown_GetEntry)

lemma teardown_frame:
  "listeners (teardown u w) = listeners w" "acceptors (teardown u w) = acceptors w"
  by (simp_all add: teardown_def)

lemma fold_teardown_zone: "zone (fold (teardown_entry u) xs srv) = zone srv"
  by (induction xs arbitrary: srv) (simp_all add: teardown_entry_def)

lemma handle_cancel_frame:
  "listeners (fst (handle_cancel u w payload)) = listeners w"
  "acceptors (fst (handle_cancel u w payload)) = acceptors w"
  "zone (server (fst (handle_cancel u w payload))) = zone (server w)"
  by (simp_all add: handle_cancel_def Let_def split: sum.splits option.splits)

lemma map_of_filter_key:
  "P k \<Longrightarrow> map_of (filter (\<lambda>e. P (fst e)) al) k = map_of al k"
  by (induction al) auto

lemma map_of_filter_key_None:
  "\<not> P k \<Longrightarrow> map_of (filter (\<lambda>e. P (fst e)) al) k = None"
  by (induction al) auto

lemma HasPrefix_append: "HasPrefix (p @ s) p"
  by (simp add: HasPrefix_def)

section \<open>Sessions and the shared bookkeeping\<close>

lemma own_key_prefixed: "HasPrefix (u @ '':'' @ x) (u @ '':'')"
  using HasPrefix_append [of "u @ '':''" x] by simp

lemma prefix_key_cases:
  assumes pre: "prefix (u @ [c]) (u' @ c # d)" and d: "c \<notin> set d"
  shows "u' = u \<or> prefix (u @ [c]) u'"
proof -
  from pre obtain r where eq: "u' @ c # d = (u @ [c]) @ r"
    by (rule prefixE)
  then obtain us where
    "(u' = (u @ [c]) @ us \<and> us @ c # d = r) \<or> (u' @ us = u @ [c] \<and> c # d = us @ r)"
    unfolding append_eq_append_conv2 by blast
  then show ?thesis
  proof
    assume "u' = (u @ [c]) @ us \<and> us @ c # d = r"
    then have "prefix (u @ [c]) u'" by (simp add: prefix_def)
    then show ?thesis ..
  next
    assume a: "u' @ us = u @ [c] \<and> c # d = us @ r"
    show ?thesis
    proof (cases us)
      case Nil
      with a have "u' = u @ [c]" by simp
      then have "prefix (u @ [c]) u'" by simp
      then show ?thesis ..
    next
      case (Cons x us')
      with a have x: "x = c" and dd: "d = us' @ r" by simp_all
      show ?thesis
      proof (cases us' rule: rev_cases)
        case Nil
        with a Cons x have "u' @ [c] = u @ [c]" by simp
        then have "u' = u" by simp
        then show ?thesis ..
      next
        case (snoc ys y)
        with a Cons x have "(u' @ c # ys) @ [y] = u @ [c]" by simp
        then have "y = c" by (simp only: append1_eq_conv)
        with snoc dd have "c \<in> set d" by simp
        with d show ?thesis by simp
      qed
    qed
  qed
qed

lemma other_user_key:
  assumes ne: "u' \<noteq> u" and np: "\<not> HasPrefix u' (u @ '':'')"
  shows "\<not> HasPrefix (u' @ '':'' @ Sprintf_d p) (u @ '':'')"
proof
  assume "HasPrefix (u' @ '':'' @ Sprintf_d p) (u @ '':'')"
  then have "prefix (u @ [CHR '':'']) (u' @ CHR '':'' # Sprintf_d p)"
    by (simp add: HasPrefix_prefix)
  from prefix_key_cases [OF this colon_notin_Sprintf_d]
  have "u' = u \<or> prefix (u @ [CHR '':'']) u'" .
  with ne np show False by (simp add: HasPrefix_prefix)
qed

text \<open>
  C8, as the code has it. The bookkeeping is one map of the server, keyed by
  \<open>user:port\<close>, and every connection works on it. A cancel or the disconnect cleanup of
  a connection of user \<open>u\<close> leaves every entry whose key does not start with \<open>u:\<close> as
  it was, so every entry of another user whose name does not start with \<open>u:\<close>, and
  every route whose host is recorded under no key that starts with \<open>u:\<close>. The cleanup
  removes the entries of user \<open>u\<close>, those under a key \<open>u:port\<close>, whichever connection
  of \<open>u\<close> made them.
\<close>

theorem bookkeeping_keyed_by_user:
  assumes k: "\<not> HasPrefix k (u @ '':'')"
    and h: "h \<notin> set (map snd (filter (\<lambda>kv. HasPrefix (fst kv) (u @ '':''))
                  (activeTunnelM (server w))))"
  shows "map_of (activeTunnelM (server (fst (handle_cancel u w payload)))) k
           = map_of (activeTunnelM (server w)) k
       \<and> GetEntry (manager (server (fst (handle_cancel u w payload)))) h
           = GetEntry (manager (server w)) h
       \<and> map_of (activeTunnelM (server (teardown u w))) k = map_of (activeTunnelM (server w)) k
       \<and> GetEntry (manager (server (teardown u w))) h = GetEntry (manager (server w)) h
       \<and> map_of (activeTunnelM (server (teardown u w))) (u @ '':'' @ Sprintf_d p) = None
       \<and> (u' \<noteq> u \<and> \<not> HasPrefix u' (u @ '':'') \<longrightarrow>
            map_of (activeTunnelM (server (fst (handle_cancel u w payload)))) (u' @ '':'' @ Sprintf_d p')
              = map_of (activeTunnelM (server w)) (u' @ '':'' @ Sprintf_d p')
            \<and> map_of (activeTunnelM (server (teardown u w))) (u' @ '':'' @ Sprintf_d p')
              = map_of (activeTunnelM (server w)) (u' @ '':'' @ Sprintf_d p'))"
proof -
  have td: "map_of (activeTunnelM (server (teardown u w))) x = map_of (activeTunnelM (server w)) x"
    if "\<not> HasPrefix x (u @ '':'')" for x
    unfolding teardown_activeTunnelM
    using that by (rule map_of_filter_key [where P = "\<lambda>x. \<not> HasPrefix x (u @ '':'')"])
  have cn: "map_of (activeTunnelM (server (fst (handle_cancel u w payload)))) x
           = map_of (activeTunnelM (server w)) x"
    if x: "\<not> HasPrefix x (u @ '':'')" for x
  proof (cases "parseForwardPort payload")
    case (Inl err)
    then show ?thesis by (simp add: handle_cancel_def)
  next
    case (Inr port)
    let ?key = "u @ '':'' @ port"
    have "HasPrefix ?key (u @ '':'')" by (rule own_key_prefixed)
    with x have xne: "x \<noteq> ?key" by auto
    show ?thesis
    proof (cases "map_of (activeTunnelM (server w)) ?key")
      case None
      with Inr show ?thesis by (simp add: handle_cancel_def)
    next
      case (Some hostStr)
      from handle_cancel_known [OF Inr Some] xne show ?thesis
        by (simp add: delete_conv)
    qed
  qed
  have own: "map_of (activeTunnelM (server (teardown u w))) (u @ '':'' @ Sprintf_d p) = None"
    unfolding teardown_activeTunnelM
    using own_key_prefixed [of u "Sprintf_d p"]
    by (simp add: map_of_filter_key_None [where P = "\<lambda>x. \<not> HasPrefix x (u @ '':'')"])
  have other: "u' \<noteq> u \<and> \<not> HasPrefix u' (u @ '':'') \<longrightarrow>
            map_of (activeTunnelM (server (fst (handle_cancel u w payload)))) (u' @ '':'' @ Sprintf_d p')
              = map_of (activeTunnelM (server w)) (u' @ '':'' @ Sprintf_d p')
            \<and> map_of (activeTunnelM (server (teardown u w))) (u' @ '':'' @ Sprintf_d p')
              = map_of (activeTunnelM (server w)) (u' @ '':'' @ Sprintf_d p')"
  proof (intro impI, elim conjE)
    assume "u' \<noteq> u" and "\<not> HasPrefix u' (u @ '':'')"
    then have np: "\<not> HasPrefix (u' @ '':'' @ Sprintf_d p') (u @ '':'')"
      by (rule other_user_key)
    from cn [OF np] td [OF np] show "map_of (activeTunnelM (server (fst (handle_cancel u w payload)))) (u' @ '':'' @ Sprintf_d p')
              = map_of (activeTunnelM (server w)) (u' @ '':'' @ Sprintf_d p')
            \<and> map_of (activeTunnelM (server (teardown u w))) (u' @ '':'' @ Sprintf_d p')
              = map_of (activeTunnelM (server w)) (u' @ '':'' @ Sprintf_d p')"
      by (rule conjI)
  qed
  have t1: "map_of (activeTunnelM (server (teardown u w))) k = map_of (activeTunnelM (server w)) k"
    unfolding teardown_activeTunnelM
    using k by (rule map_of_filter_key [where P = "\<lambda>x. \<not> HasPrefix x (u @ '':'')"])
  have t2: "GetEntry (manager (server (teardown u w))) h = GetEntry (manager (server w)) h"
    using h by (simp add: teardown_GetEntry)
  have c: "map_of (activeTunnelM (server (fst (handle_cancel u w payload)))) k
           = map_of (activeTunnelM (server w)) k
       \<and> GetEntry (manager (server (fst (handle_cancel u w payload)))) h
           = GetEntry (manager (server w)) h"
  proof (cases "parseForwardPort payload")
    case (Inl err)
    then show ?thesis by (simp add: handle_cancel_def)
  next
    case (Inr port)
    let ?key = "u @ '':'' @ port"
    have pre: "HasPrefix ?key (u @ '':'')"
      using HasPrefix_append [of "u @ '':''" port] by simp
    with k have kne: "k \<noteq> ?key" by auto
    show ?thesis
    proof (cases "map_of (activeTunnelM (server w)) ?key")
      case None
      with Inr show ?thesis by (simp add: handle_cancel_def)
    next
      case (Some hostStr)
      then have "(?key, hostStr) \<in> set (activeTunnelM (server w))"
        by (rule map_of_SomeD)
      with pre have "hostStr \<in> set (map snd (filter (\<lambda>kv. HasPrefix (fst kv) (u @ '':''))
                  (activeTunnelM (server w))))"
        by force
      with h have hne: "h \<noteq> hostStr" by auto
      from handle_cancel_known [OF Inr Some] kne hne show ?thesis
        by (simp add: delete_conv GetEntry_RemoveRoute)
    qed
  qed
  from c t1 t2 own other show ?thesis by blast
qed

lemma ex_world_ab_bookkeeping:
  "activeTunnelM (server ex_world_ab) =
     [(''alice:40001'', ''alice.example.test''), (''bob:40002'', ''bob.example.test'')]"
  unfolding ex_world_ab_def
  by (simp add: ex_forward_step Sprintf_d_examples ex_world1_eq)

lemma ex_world_ab_route:
  "GetEntry (manager (server ex_world_ab)) ''bob.example.test'' =
     Some \<lparr>TargetURL = ''http://127.0.0.1:40002'', Proxy = ''http://127.0.0.1:40002'', CreatedAt = 8\<rparr>"
  unfolding ex_world_ab_def
  by (simp add: ex_forward_step Sprintf_d_examples ex_world1_eq GetEntry_def)

theorem bookkeeping_keyed_by_user_witness:
  "\<not> HasPrefix ''bob:40002'' (''alice'' @ '':'')
   \<and> ''bob.example.test'' \<notin> set (map snd (filter (\<lambda>kv. HasPrefix (fst kv) (''alice'' @ '':''))
         (activeTunnelM (server ex_world_ab))))
   \<and> map_of (activeTunnelM (server (fst (handle_cancel ''alice'' ex_world_ab (client_payload 40001)))))
        ''bob:40002'' = Some ''bob.example.test''
   \<and> GetEntry (manager (server (fst (handle_cancel ''alice'' ex_world_ab (client_payload 40001)))))
        ''bob.example.test''
        = Some \<lparr>TargetURL = ''http://127.0.0.1:40002'', Proxy = ''http://127.0.0.1:40002'', CreatedAt = 8\<rparr>
   \<and> map_of (activeTunnelM (server (teardown ''alice'' ex_world_ab))) ''bob:40002''
        = Some ''bob.example.test''
   \<and> GetEntry (manager (server (teardown ''alice'' ex_world_ab))) ''bob.example.test''
        = Some \<lparr>TargetURL = ''http://127.0.0.1:40002'', Proxy = ''http://127.0.0.1:40002'', CreatedAt = 8\<rparr>
   \<and> map_of (activeTunnelM (server (teardown ''alice'' ex_world_ab)))
        (''alice'' @ '':'' @ Sprintf_d 40001) = None
   \<and> ''bob'' \<noteq> ''alice'' \<and> \<not> HasPrefix ''bob'' (''alice'' @ '':'')
   \<and> map_of (activeTunnelM (server (teardown ''alice'' ex_world_ab)))
        (''bob'' @ '':'' @ Sprintf_d 40002) = Some ''bob.example.test''
   \<and> map_of (activeTunnelM (server (fst (handle_cancel ''alice'' ex_world_ab (client_payload 40001)))))
        (''bob'' @ '':'' @ Sprintf_d 40002) = Some ''bob.example.test''"
proof -
  have k: "\<not> HasPrefix ''bob:40002'' (''alice'' @ '':'')"
    by (simp add: HasPrefix_def)
  have h: "''bob.example.test'' \<notin> set (map snd (filter (\<lambda>kv. HasPrefix (fst kv) (''alice'' @ '':''))
         (activeTunnelM (server ex_world_ab))))"
    by (simp add: ex_world_ab_bookkeeping HasPrefix_def)
  have o: "''bob'' \<noteq> ''alice'' \<and> \<not> HasPrefix ''bob'' (''alice'' @ '':'')"
    by (simp add: HasPrefix_def)
  from bookkeeping_keyed_by_user [OF k h, of "client_payload 40001" 40001 "''bob''" 40002] k h o
  show ?thesis
    by (simp add: ex_world_ab_bookkeeping ex_world_ab_route Sprintf_d_examples)
qed

text \<open>
  C8, as the specification states it, fails. In \<open>ex_world1\<close> a connection of alice has a
  forward on port 40001 and is still open. A second connection that authenticates as
  alice and ends without sending a request, or that sends a cancel for port 40001,
  removes the bookkeeping entry and the route of the first.
\<close>

theorem session_scope_counterexample:
  "map_of (activeTunnelM (server ex_world1)) ''alice:40001'' = Some ''alice.example.test''
   \<and> GetEntry (manager (server ex_world1)) ''alice.example.test''
        = Some \<lparr>TargetURL = ''http://127.0.0.1:40001'', Proxy = ''http://127.0.0.1:40001'', CreatedAt = 7\<rparr>
   \<and> map_of (activeTunnelM (server (fst (HandleConn ex_Parse (Some ''alice'') ex_world1 []))))
        ''alice:40001'' = None
   \<and> GetEntry (manager (server (fst (HandleConn ex_Parse (Some ''alice'') ex_world1 []))))
        ''alice.example.test'' = None
   \<and> map_of (activeTunnelM (server (fst (HandleConn ex_Parse (Some ''alice'') ex_world1
        [(ex_cancel_req 40001, 9, None)])))) ''alice:40001'' = None
   \<and> GetEntry (manager (server (fst (handle_request ex_Parse 9 None ''alice'' ex_world1
        (ex_cancel_req 40001))))) ''alice.example.test'' = None"
proof -
  have pre: "HasPrefix ''alice:40001'' ''alice:''"
    by (simp add: HasPrefix_def)
  have conn: "fst (HandleConn ex_Parse (Some ''alice'') ex_world1 []) = teardown ''alice'' ex_world1"
    by (simp add: HandleConn_def)
  have a: "map_of (activeTunnelM (server ex_world1)) ''alice:40001'' = Some ''alice.example.test''"
    by (simp add: ex_world1_eq)
  have b: "GetEntry (manager (server ex_world1)) ''alice.example.test''
        = Some \<lparr>TargetURL = ''http://127.0.0.1:40001'', Proxy = ''http://127.0.0.1:40001'', CreatedAt = 7\<rparr>"
    by (simp add: ex_world1_eq GetEntry_def)
  have c: "map_of (activeTunnelM (server (teardown ''alice'' ex_world1))) ''alice:40001'' = None"
    using pre by (simp add: teardown_activeTunnelM ex_world1_eq)
  have d: "GetEntry (manager (server (teardown ''alice'' ex_world1))) ''alice.example.test'' = None"
    using pre by (simp add: teardown_GetEntry ex_world1_eq)
  have step: "handle_request ex_Parse 9 None ''alice'' ex_world1 (ex_cancel_req 40001) =
      (ex_world1\<lparr>server := (server ex_world1)\<lparr>
           manager := RemoveRoute (manager (server ex_world1)) ''alice.example.test'',
           activeTunnelM := []\<rparr>\<rparr>,
       \<lparr>reply_ok = True, reply_payload = [], listen_call = None\<rparr>)"
    by (simp add: ex_cancel_step Sprintf_d_examples ex_world1_eq AList.delete_eq)
  have e: "map_of (activeTunnelM (server (fst (HandleConn ex_Parse (Some ''alice'') ex_world1
        [(ex_cancel_req 40001, 9, None)])))) ''alice:40001'' = None"
    by (simp add: HandleConn_def step teardown_activeTunnelM)
  have f: "GetEntry (manager (server (fst (handle_request ex_Parse 9 None ''alice'' ex_world1
        (ex_cancel_req 40001))))) ''alice.example.test'' = None"
    by (simp add: step GetEntry_RemoveRoute)
  from a b c d e f show ?thesis
    unfolding conn by blast
qed

text \<open>
  The cleanup compares key prefixes. The disconnect of a user named \<open>a\<close> therefore
  also removes the forward of a user named \<open>a:b\<close>, who is not the user of that
  connection.
\<close>

lemma prefix_cleanup_reaches_longer_name:
  "map_of (activeTunnelM (server (fst (handle_request ex_Parse 7 (Some 40001) ''a:b'' ex_world
      (ex_forward_req 0))))) ''a:b:40001'' = Some ''a:b.example.test''
   \<and> map_of (activeTunnelM (server (teardown ''a'' (fst (handle_request ex_Parse 7 (Some 40001)
      ''a:b'' ex_world (ex_forward_req 0)))))) ''a:b:40001'' = None"
proof -
  have pre: "HasPrefix ''a:b:40001'' ''a:''"
    by (simp add: HasPrefix_def)
  have al: "activeTunnelM (server (fst (handle_request ex_Parse 7 (Some 40001) ''a:b'' ex_world
      (ex_forward_req 0)))) = [(''a:b:40001'', ''a:b.example.test'')]"
    by (simp add: ex_forward_step Sprintf_d_examples ex_world_def)
  show ?thesis
    using pre by (simp add: teardown_activeTunnelM al)
qed

lemma HandleConn_one_request:
  "u \<noteq> [] \<Longrightarrow>
   fst (HandleConn Parse (Some u) w [(req, now, lr)]) =
     teardown u (fst (handle_request Parse now lr u w req))"
  by (simp add: HandleConn_def case_prod_unfold Let_def)

section \<open>Runs: what holds in every reachable state\<close>

lemma tunnels_invI:
  assumes "shard_partition (manager (server w))"
    and "\<And>k v. map_of (activeTunnelM (server w)) k = Some v \<Longrightarrow>
           \<exists>u \<in> U. \<exists>p. k = u @ '':'' @ Sprintf_d p \<and> v = u @ ''.'' @ zone (server w)"
    and "\<And>h. GetEntry (manager (server w)) h \<noteq> None \<Longrightarrow>
           \<exists>k. map_of (activeTunnelM (server w)) k = Some h"
  shows "tunnels_inv U w"
  unfolding tunnels_inv_def
proof (intro conjI allI impI)
  show "shard_partition (manager (server w))" by fact
next
  fix k v assume "map_of (activeTunnelM (server w)) k = Some v"
  then show "\<exists>u \<in> U. \<exists>p. k = u @ '':'' @ Sprintf_d p \<and> v = u @ ''.'' @ zone (server w)"
    by (rule assms(2))
next
  fix h assume "GetEntry (manager (server w)) h \<noteq> None"
  then show "\<exists>k. map_of (activeTunnelM (server w)) k = Some h"
    by (rule assms(3))
qed

lemma tunnels_inv_partition: "tunnels_inv U w \<Longrightarrow> shard_partition (manager (server w))"
  by (simp add: tunnels_inv_def)

lemma tunnels_inv_keys:
  "tunnels_inv U w \<Longrightarrow> map_of (activeTunnelM (server w)) k = Some v \<Longrightarrow>
   \<exists>u \<in> U. \<exists>p. k = u @ '':'' @ Sprintf_d p \<and> v = u @ ''.'' @ zone (server w)"
  by (simp add: tunnels_inv_def)

lemma tunnels_inv_routes:
  "tunnels_inv U w \<Longrightarrow> GetEntry (manager (server w)) h \<noteq> None \<Longrightarrow>
   \<exists>k. map_of (activeTunnelM (server w)) k = Some h"
  by (simp add: tunnels_inv_def)

lemma tunnels_inv_server: "server w' = server w \<Longrightarrow> tunnels_inv U w' = tunnels_inv U w"
  by (simp add: tunnels_inv_def)

lemma tunnels_inv_mono:
  assumes inv: "tunnels_inv U w" and sub: "U \<subseteq> U'"
  shows "tunnels_inv U' w"
proof (rule tunnels_invI)
  show "shard_partition (manager (server w))"
    using inv by (rule tunnels_inv_partition)
next
  fix k v assume "map_of (activeTunnelM (server w)) k = Some v"
  from tunnels_inv_keys [OF inv this] sub
  show "\<exists>u \<in> U'. \<exists>p. k = u @ '':'' @ Sprintf_d p \<and> v = u @ ''.'' @ zone (server w)"
    by blast
next
  fix h assume "GetEntry (manager (server w)) h \<noteq> None"
  then show "\<exists>k. map_of (activeTunnelM (server w)) k = Some h"
    using inv by (simp add: tunnels_inv_routes)
qed

lemma handle_forward_server:
  obtains (same) "server (fst (handle_forward Parse now lr u w payload)) = server w"
  | (installed) bp m' where
      "AddRoute Parse now (manager (server w)) (u @ ''.'' @ zone (server w))
         (''127.0.0.1:'' @ Sprintf_d bp) = Inr m'"
      "server (fst (handle_forward Parse now lr u w payload)) =
         (server w)\<lparr>manager := m',
            activeTunnelM := AList.update (u @ '':'' @ Sprintf_d bp) (u @ ''.'' @ zone (server w))
              (activeTunnelM (server w))\<rparr>"
proof (cases "parseForwardPort payload")
  case (Inl err)
  then have "server (fst (handle_forward Parse now lr u w payload)) = server w"
    by (simp add: handle_forward_def)
  then show ?thesis by (rule same)
next
  case parsed: (Inr rp)
  show ?thesis
  proof (cases lr)
    case None
    with parsed have "server (fst (handle_forward Parse now lr u w payload)) = server w"
      by (simp add: handle_forward_def)
    then show ?thesis by (rule same)
  next
    case (Some bp)
    show ?thesis
    proof (cases "AddRoute Parse now (manager (server w)) (u @ ''.'' @ zone (server w))
                 (''127.0.0.1:'' @ Sprintf_d bp)")
      case (Inl err)
      from handle_forward_install_failed [OF parsed Inl] Some
      have "server (fst (handle_forward Parse now lr u w payload)) = server w"
        by simp
      then show ?thesis by (rule same)
    next
      case (Inr m')
      from handle_forward_installed [OF parsed Inr] Some
      have "server (fst (handle_forward Parse now lr u w payload)) =
            (server w)\<lparr>manager := m',
               activeTunnelM := AList.update (u @ '':'' @ Sprintf_d bp) (u @ ''.'' @ zone (server w))
                 (activeTunnelM (server w))\<rparr>"
        by simp
      with Inr show ?thesis by (rule installed)
    qed
  qed
qed

lemma tunnels_inv_install:
  assumes inv: "tunnels_inv U w"
    and add: "AddRoute Parse now (manager (server w)) (u @ ''.'' @ zone (server w)) t = Inr m'"
    and srv: "server w' = (server w)\<lparr>manager := m',
               activeTunnelM := AList.update (u @ '':'' @ Sprintf_d bp) (u @ ''.'' @ zone (server w))
                 (activeTunnelM (server w))\<rparr>"
  shows "tunnels_inv (insert u U) w'"
proof -
  let ?al = "activeTunnelM (server w)" and ?host = "u @ ''.'' @ zone (server w)"
  let ?key = "u @ '':'' @ Sprintf_d bp"
  note part = tunnels_inv_partition [OF inv]
    and keys = tunnels_inv_keys [OF inv]
    and routes = tunnels_inv_routes [OF inv]
  have al': "map_of (activeTunnelM (server w')) = (map_of ?al)(?key \<mapsto> ?host)"
    by (simp add: srv update_conv')
  have z': "zone (server w') = zone (server w)" and m': "manager (server w') = m'"
    by (simp_all add: srv)
  have 1: "shard_partition (manager (server w'))"
    unfolding m' using part add by (rule shard_partition_AddRoute)
  have 2: "\<exists>u' \<in> insert u U. \<exists>p. k = u' @ '':'' @ Sprintf_d p \<and> v = u' @ ''.'' @ zone (server w')"
    if "map_of (activeTunnelM (server w')) k = Some v" for k v
  proof (cases "k = ?key")
    case True
    with that have "v = ?host" by (simp add: al')
    with True show ?thesis unfolding z' by blast
  next
    case False
    with that have "map_of ?al k = Some v" by (simp add: al')
    from keys [OF this] show ?thesis unfolding z' by blast
  qed
  have 3: "\<exists>k. map_of (activeTunnelM (server w')) k = Some h"
    if "GetEntry (manager (server w')) h \<noteq> None" for h
  proof (cases "h = ?host")
    case True
    then have "map_of (activeTunnelM (server w')) ?key = Some h" by (simp add: al')
    then show ?thesis ..
  next
    case False
    with that GetEntry_AddRoute_other [OF add False] have "GetEntry (manager (server w)) h \<noteq> None"
      by (simp add: m')
    from routes [OF this] obtain k where k: "map_of ?al k = Some h" ..
    from keys [OF k] obtain u' p where kp: "k = u' @ '':'' @ Sprintf_d p"
      and hp: "h = u' @ ''.'' @ zone (server w)" by blast
    have "k \<noteq> ?key"
    proof
      assume "k = ?key"
      with kp have "u' @ '':'' @ Sprintf_d p = u @ '':'' @ Sprintf_d bp" by simp
      then have "u' = u" by (rule tunnel_key_user)
      with hp False show False by simp
    qed
    with k have "map_of (activeTunnelM (server w')) k = Some h" by (simp add: al')
    then show ?thesis ..
  qed
  from 1 2 3 show ?thesis by (rule tunnels_invI)
qed

lemma tunnels_inv_forward:
  assumes "tunnels_inv U w"
  shows "tunnels_inv (insert u U) (fst (handle_forward Parse now lr u w payload))"
proof (rule handle_forward_server [of Parse now lr u w payload])
  assume "server (fst (handle_forward Parse now lr u w payload)) = server w"
  from tunnels_inv_server [OF this] assms
  have "tunnels_inv U (fst (handle_forward Parse now lr u w payload))"
    by simp
  then show ?thesis by (rule tunnels_inv_mono) (rule subset_insertI)
next
  fix bp m'
  assume "AddRoute Parse now (manager (server w)) (u @ ''.'' @ zone (server w))
                 (''127.0.0.1:'' @ Sprintf_d bp) = Inr m'"
    and "server (fst (handle_forward Parse now lr u w payload)) =
            (server w)\<lparr>manager := m',
               activeTunnelM := AList.update (u @ '':'' @ Sprintf_d bp) (u @ ''.'' @ zone (server w))
                 (activeTunnelM (server w))\<rparr>"
  with assms show ?thesis by (rule tunnels_inv_install)
qed

lemma tunnels_inv_cancel:
  assumes inv: "tunnels_inv U w"
  shows "tunnels_inv U (fst (handle_cancel u w payload))"
proof (cases "parseForwardPort payload")
  case (Inl err)
  then have "fst (handle_cancel u w payload) = w" by (simp add: handle_cancel_def)
  with inv show ?thesis by simp
next
  case (Inr port)
  let ?key = "u @ '':'' @ port" and ?al = "activeTunnelM (server w)"
  show ?thesis
  proof (cases "map_of ?al ?key")
    case None
    with Inr have "fst (handle_cancel u w payload) = w" by (simp add: handle_cancel_def)
    with inv show ?thesis by simp
  next
    case (Some hostStr)
    let ?w' = "fst (handle_cancel u w payload)"
    from handle_cancel_known [OF Inr Some]
    have srv: "server ?w' = (server w)\<lparr>manager := RemoveRoute (manager (server w)) hostStr,
                 activeTunnelM := AList.delete ?key ?al\<rparr>"
      by simp
    have al': "map_of (activeTunnelM (server ?w')) = (map_of ?al)(?key := None)"
      by (simp add: srv delete_conv')
    have z': "zone (server ?w') = zone (server w)"
      and m': "manager (server ?w') = RemoveRoute (manager (server w)) hostStr"
      by (simp_all add: srv)
    show ?thesis
    proof (rule tunnels_invI)
      show "shard_partition (manager (server ?w'))"
        unfolding m' using tunnels_inv_partition [OF inv] by (rule shard_partition_RemoveRoute)
    next
      fix k v assume "map_of (activeTunnelM (server ?w')) k = Some v"
      then have "map_of ?al k = Some v"
        by (simp add: al' split: if_splits)
      from tunnels_inv_keys [OF inv this]
      show "\<exists>u' \<in> U. \<exists>p. k = u' @ '':'' @ Sprintf_d p \<and> v = u' @ ''.'' @ zone (server ?w')"
        unfolding z' .
    next
      fix h assume "GetEntry (manager (server ?w')) h \<noteq> None"
      then have hne: "h \<noteq> hostStr" and old: "GetEntry (manager (server w)) h \<noteq> None"
        by (simp_all add: m' GetEntry_RemoveRoute split: if_splits)
      from tunnels_inv_routes [OF inv old] obtain k where k: "map_of ?al k = Some h" ..
      with Some hne have "k \<noteq> ?key" by auto
      with k have "map_of (activeTunnelM (server ?w')) k = Some h" by (simp add: al')
      then show "\<exists>k. map_of (activeTunnelM (server ?w')) k = Some h" ..
    qed
  qed
qed

lemma shard_partition_fold_teardown:
  "shard_partition (manager srv) \<Longrightarrow> shard_partition (manager (fold (teardown_entry u) xs srv))"
  by (induction xs arbitrary: srv) (simp_all add: teardown_entry_def shard_partition_RemoveRoute)

lemma teardown_zone: "zone (server (teardown u w)) = zone (server w)"
  by (simp add: teardown_def fold_teardown_zone)

lemma map_of_teardown:
  "map_of (activeTunnelM (server (teardown u w))) k =
     (if HasPrefix k (u @ '':'') then None else map_of (activeTunnelM (server w)) k)"
proof (cases "HasPrefix k (u @ '':'')")
  case True
  then show ?thesis
    unfolding teardown_activeTunnelM
    by (simp add: map_of_filter_key_None [where P = "\<lambda>x. \<not> HasPrefix x (u @ '':'')"])
next
  case False
  then show ?thesis
    unfolding teardown_activeTunnelM
    by (simp add: map_of_filter_key [where P = "\<lambda>x. \<not> HasPrefix x (u @ '':'')"])
qed

lemma tunnels_inv_teardown:
  assumes inv: "tunnels_inv U w"
  shows "tunnels_inv (U - {u}) (teardown u w)"
proof (rule tunnels_invI)
  show "shard_partition (manager (server (teardown u w)))"
    using tunnels_inv_partition [OF inv]
    by (simp add: teardown_def shard_partition_fold_teardown)
next
  fix k v assume "map_of (activeTunnelM (server (teardown u w))) k = Some v"
  then have pre: "\<not> HasPrefix k (u @ '':'')" and old: "map_of (activeTunnelM (server w)) k = Some v"
    by (simp_all add: map_of_teardown split: if_splits)
  from tunnels_inv_keys [OF inv old] obtain u' p where u': "u' \<in> U"
    and k: "k = u' @ '':'' @ Sprintf_d p" and v: "v = u' @ ''.'' @ zone (server w)"
    by blast
  have "u' \<noteq> u"
  proof
    assume "u' = u"
    with k have "k = (u @ '':'') @ Sprintf_d p" by simp
    then have "HasPrefix k (u @ '':'')" by (simp only: HasPrefix_append)
    with pre show False ..
  qed
  with u' k v
  show "\<exists>u' \<in> U - {u}. \<exists>p. k = u' @ '':'' @ Sprintf_d p \<and> v = u' @ ''.'' @ zone (server (teardown u w))"
    unfolding teardown_zone by blast
next
  fix h assume "GetEntry (manager (server (teardown u w))) h \<noteq> None"
  then have nrem: "h \<notin> set (map snd (filter (\<lambda>kv. HasPrefix (fst kv) (u @ '':''))
                     (activeTunnelM (server w))))"
    and old: "GetEntry (manager (server w)) h \<noteq> None"
    by (simp_all add: teardown_GetEntry split: if_splits)
  from tunnels_inv_routes [OF inv old] obtain k where k: "map_of (activeTunnelM (server w)) k = Some h" ..
  then have mem: "(k, h) \<in> set (activeTunnelM (server w))" by (rule map_of_SomeD)
  have "\<not> HasPrefix k (u @ '':'')"
  proof
    assume "HasPrefix k (u @ '':'')"
    with mem have "h \<in> set (map snd (filter (\<lambda>kv. HasPrefix (fst kv) (u @ '':''))
                     (activeTunnelM (server w))))"
      by force
    with nrem show False ..
  qed
  with k have "map_of (activeTunnelM (server (teardown u w))) k = Some h"
    by (simp add: map_of_teardown)
  then show "\<exists>k. map_of (activeTunnelM (server (teardown u w))) k = Some h" ..
qed

lemma tunnels_inv_step:
  assumes inv: "tunnels_inv U w"
  shows "tunnels_inv (open_step U e) (session_step Parse w e)"
proof (cases e)
  case (Pair u ev)
  show ?thesis
  proof (cases ev)
    case Disconnect
    with Pair inv show ?thesis by (simp add: tunnels_inv_teardown)
  next
    case (Request req now lr)
    have "tunnels_inv (insert u U) (fst (handle_request Parse now lr u w req))"
    proof (cases "Type req = ''tcpip-forward''")
      case True
      with tunnels_inv_forward [OF inv, of u Parse now lr "Payload req"]
      show ?thesis by (simp add: handle_request_def)
    next
      case nf: False
      show ?thesis
      proof (cases "Type req = ''cancel-tcpip-forward''")
        case True
        have "tunnels_inv (insert u U) (fst (handle_cancel u w (Payload req)))"
          using tunnels_inv_cancel [OF inv] by (rule tunnels_inv_mono) (rule subset_insertI)
        with nf True show ?thesis by (simp add: handle_request_def)
      next
        case False
        have "tunnels_inv (insert u U) w"
          using inv by (rule tunnels_inv_mono) (rule subset_insertI)
        with nf False show ?thesis by (simp add: handle_request_def)
      qed
    qed
    with Pair Request show ?thesis by simp
  qed
qed

lemma tunnels_inv_run:
  "tunnels_inv U w \<Longrightarrow> tunnels_inv (foldl open_step U evs) (foldl (session_step Parse) w evs)"
  by (induction evs arbitrary: U w) (simp_all add: tunnels_inv_step)

lemma HandleConn_run:
  assumes "u \<noteq> []"
  shows "fst (HandleConn Parse (Some u) w reqs) =
           run_sessions Parse w
             (map (\<lambda>r. (u, Request (fst r) (fst (snd r)) (snd (snd r)))) reqs @ [(u, Disconnect)])"
proof -
  have "fst (serve_requests Parse u w reqs) =
      foldl (session_step Parse) w (map (\<lambda>r. (u, Request (fst r) (fst (snd r)) (snd (snd r)))) reqs)"
  proof (induction reqs arbitrary: w)
    case Nil
    show ?case by simp
  next
    case (Cons a reqs)
    obtain req now lr where a: "a = (req, now, lr)" by (cases a)
    show ?case
      by (simp add: a case_prod_unfold Let_def Cons.IH)
  qed
  with assms show ?thesis
    by (simp add: HandleConn_def run_sessions_def case_prod_unfold Let_def)
qed

text \<open>
  The route half of C1: in a run that starts with no forward and no route, once every
  user with a request has had a connection end after it, no bookkeeping entry and no
  route is left.
\<close>

lemma all_sessions_ended_no_route:
  assumes empty: "activeTunnelM (server w) = []" "\<And>i. shards (manager (server w)) i = Map.empty"
    and ended: "open_users evs = {}"
  shows "activeTunnelM (server (run_sessions Parse w evs)) = []
       \<and> (\<forall>i. shards (manager (server (run_sessions Parse w evs))) i = Map.empty)"
proof -
  let ?w' = "run_sessions Parse w evs"
  have "tunnels_inv {} w"
    by (rule tunnels_invI) (simp_all add: empty shard_partition_def GetEntry_def)
  then have inv: "tunnels_inv {} ?w'"
    using tunnels_inv_run [of "{}" w evs Parse] ended
    by (simp add: open_users_def run_sessions_def)
  have none: "map_of (activeTunnelM (server ?w')) k = None" for k
  proof (cases "map_of (activeTunnelM (server ?w')) k")
    case None
    then show ?thesis .
  next
    case (Some v)
    from tunnels_inv_keys [OF inv Some] show ?thesis by simp
  qed
  then have "map_of (activeTunnelM (server ?w')) = Map.empty" by (rule ext)
  then have al: "activeTunnelM (server ?w') = []" by simp
  have "shards (manager (server ?w')) i h = None" for i h
  proof (rule ccontr)
    assume stored: "shards (manager (server ?w')) i h \<noteq> None"
    with tunnels_inv_partition [OF inv] have "i = shardIdx h"
      unfolding shard_partition_def by blast
    with stored have "GetEntry (manager (server ?w')) h \<noteq> None"
      by (simp add: GetEntry_def)
    from tunnels_inv_routes [OF inv this] none show False by simp
  qed
  then have "\<forall>i. shards (manager (server ?w')) i = Map.empty"
    by (intro allI ext)
  with al show ?thesis ..
qed

lemma handle_forward_listeners:
  "prefix (listeners w) (listeners (fst (handle_forward Parse now lr u w payload)))"
proof (cases "parseForwardPort payload")
  case (Inl err)
  then show ?thesis by (simp add: handle_forward_def)
next
  case parsed: (Inr rp)
  show ?thesis
  proof (cases lr)
    case None
    with parsed show ?thesis by (simp add: handle_forward_def)
  next
    case (Some bp)
    show ?thesis
    proof (cases "AddRoute Parse now (manager (server w)) (u @ ''.'' @ zone (server w))
                 (''127.0.0.1:'' @ Sprintf_d bp)")
      case (Inl err)
      from handle_forward_install_failed [OF parsed Inl] Some show ?thesis by simp
    next
      case (Inr m')
      from handle_forward_installed [OF parsed Inr] Some show ?thesis by simp
    qed
  qed
qed

lemma session_step_listeners: "prefix (listeners w) (listeners (session_step Parse w e))"
proof (cases e)
  case (Pair u ev)
  show ?thesis
  proof (cases ev)
    case Disconnect
    with Pair show ?thesis by (simp add: teardown_frame)
  next
    case (Request req now lr)
    with Pair show ?thesis
      by (simp add: handle_request_def handle_forward_listeners handle_cancel_frame)
  qed
qed

lemma run_sessions_listeners: "prefix (listeners w) (listeners (run_sessions Parse w evs))"
  unfolding run_sessions_def
proof (induction evs arbitrary: w)
  case Nil
  show ?case by simp
next
  case (Cons e evs)
  have "prefix (listeners w) (listeners (session_step Parse w e))"
    by (rule session_step_listeners)
  also have "prefix \<dots> (listeners (foldl (session_step Parse) (session_step Parse w e) evs))"
    by (rule Cons.IH)
  finally show ?case by simp
qed

lemma handle_forward_acceptors:
  "set (acceptors (fst (handle_forward Parse now lr u w payload)))
     \<subseteq> set (acceptors w) \<union> {(length (listeners w), ''localhost'', ''3000'')}"
proof (cases "parseForwardPort payload")
  case (Inl err)
  then show ?thesis by (auto simp: handle_forward_def)
next
  case parsed: (Inr rp)
  show ?thesis
  proof (cases lr)
    case None
    with parsed show ?thesis by (auto simp: handle_forward_def)
  next
    case (Some bp)
    show ?thesis
    proof (cases "AddRoute Parse now (manager (server w)) (u @ ''.'' @ zone (server w))
                 (''127.0.0.1:'' @ Sprintf_d bp)")
      case (Inl err)
      from handle_forward_install_failed [OF parsed Inl] Some show ?thesis by auto
    next
      case (Inr m')
      from handle_forward_installed [OF parsed Inr] Some show ?thesis by auto
    qed
  qed
qed

lemma session_step_acceptors:
  assumes "snd ` set (acceptors w) \<subseteq> {(''localhost'', ''3000'')}"
  shows "snd ` set (acceptors (session_step Parse w e)) \<subseteq> {(''localhost'', ''3000'')}"
proof (cases e)
  case (Pair u ev)
  show ?thesis
  proof (cases ev)
    case Disconnect
    with Pair assms show ?thesis by (simp add: teardown_frame)
  next
    case (Request req now lr)
    have "snd ` set (acceptors (fst (handle_forward Parse now lr u w (Payload req))))
        \<subseteq> {(''localhost'', ''3000'')}"
      using handle_forward_acceptors [of Parse now lr u w "Payload req"] assms by fastforce
    with Pair Request assms show ?thesis
      by (simp add: handle_request_def handle_cancel_frame)
  qed
qed

lemma run_sessions_acceptors:
  "snd ` set (acceptors w) \<subseteq> {(''localhost'', ''3000'')} \<Longrightarrow>
   snd ` set (acceptors (run_sessions Parse w evs)) \<subseteq> {(''localhost'', ''3000'')}"
  unfolding run_sessions_def
  by (induction evs arbitrary: w) (simp_all add: session_step_acceptors)

section \<open>The life of a forward\<close>

text \<open>
  C1. Alice's forward is bound to port 40001 (\<open>ex_world1\<close>). Her cancel for that port
  removes the route and the bookkeeping entry, and so does the cleanup when her
  connection ends after the forward; in both cases the listener on port 40001 is still
  open afterwards. Neither \<open>handle_cancel\<close> nor \<open>teardown\<close> touches a listener, and
  in every run of requests and disconnects the listeners that exist stay as they are.
\<close>

theorem forward_end_leaves_listener_open:
  "listeners (fst (handle_request ex_Parse 9 None ''alice'' ex_world1 (ex_cancel_req 40001)))
     = [(40001, True)]
   \<and> activeTunnelM (server (fst (handle_request ex_Parse 9 None ''alice'' ex_world1
        (ex_cancel_req 40001)))) = []
   \<and> GetEntry (manager (server (fst (handle_request ex_Parse 9 None ''alice'' ex_world1
        (ex_cancel_req 40001))))) ''alice.example.test'' = None
   \<and> listeners (fst (HandleConn ex_Parse (Some ''alice'') ex_world [(ex_forward_req 0, 7, Some 40001)]))
     = [(40001, True)]
   \<and> activeTunnelM (server (fst (HandleConn ex_Parse (Some ''alice'') ex_world
        [(ex_forward_req 0, 7, Some 40001)]))) = []
   \<and> GetEntry (manager (server (fst (HandleConn ex_Parse (Some ''alice'') ex_world
        [(ex_forward_req 0, 7, Some 40001)])))) ''alice.example.test'' = None
   \<and> listeners (fst (handle_cancel u w payload)) = listeners w
   \<and> listeners (teardown u w) = listeners w
   \<and> prefix (listeners w) (listeners (run_sessions Parse w evs))"
proof -
  have pre: "HasPrefix ''alice:40001'' ''alice:''"
    by (simp add: HasPrefix_def)
  have step: "handle_request ex_Parse 9 None ''alice'' ex_world1 (ex_cancel_req 40001) =
      (ex_world1\<lparr>server := (server ex_world1)\<lparr>
           manager := RemoveRoute (manager (server ex_world1)) ''alice.example.test'',
           activeTunnelM := []\<rparr>\<rparr>,
       \<lparr>reply_ok = True, reply_payload = [], listen_call = None\<rparr>)"
    by (simp add: ex_cancel_step Sprintf_d_examples ex_world1_eq AList.delete_eq)
  have a: "listeners (fst (handle_request ex_Parse 9 None ''alice'' ex_world1 (ex_cancel_req 40001)))
     = [(40001, True)]"
    by (simp add: step) (simp add: ex_world1_eq)
  have b: "activeTunnelM (server (fst (handle_request ex_Parse 9 None ''alice'' ex_world1
        (ex_cancel_req 40001)))) = []"
    by (simp add: step)
  have c: "GetEntry (manager (server (fst (handle_request ex_Parse 9 None ''alice'' ex_world1
        (ex_cancel_req 40001))))) ''alice.example.test'' = None"
    by (simp add: step GetEntry_RemoveRoute)
  have conn: "fst (HandleConn ex_Parse (Some ''alice'') ex_world [(ex_forward_req 0, 7, Some 40001)])
      = teardown ''alice'' ex_world1"
    by (simp add: HandleConn_one_request ex_world1_def)
  have d: "listeners (teardown ''alice'' ex_world1) = [(40001, True)]"
    by (simp add: teardown_frame ex_world1_eq)
  have e: "activeTunnelM (server (teardown ''alice'' ex_world1)) = []"
    using pre by (simp add: teardown_activeTunnelM ex_world1_eq)
  have f: "GetEntry (manager (server (teardown ''alice'' ex_world1))) ''alice.example.test'' = None"
    using pre by (simp add: teardown_GetEntry ex_world1_eq)
  from a b c d e f handle_cancel_frame(1) [of u w payload] teardown_frame(1) [of u w]
    run_sessions_listeners [of w Parse evs]
  show ?thesis
    unfolding conn by blast
qed

text \<open>
  C2. On a connection accepted on the listener of alice's forward, the acceptor dials
  the TCP address \<open>localhost:3000\<close>; it opens no channel over the SSH connection. No
  acceptor ever does: \<open>forward_conn\<close> only dials, and in every run from the initial
  world every acceptor has the address \<open>localhost:3000\<close>.
\<close>

theorem acceptor_dials_fixed_address:
  "accept_conn ex_world1 0 = Some [NetDial ''localhost:3000'']
   \<and> acceptors (fst (handle_request ex_Parse 7 (Some 40001) ''alice'' ex_world (ex_forward_req 0)))
        = [(0, ''localhost'', ''3000'')]
   \<and> forward_conn upstreamHost upstreamPort = [NetDial (upstreamHost @ '':'' @ upstreamPort)]
   \<and> SshOpenChannel ty payload \<notin> set (forward_conn upstreamHost upstreamPort)
   \<and> snd ` set (acceptors (run_sessions Parse ex_world evs)) \<subseteq> {(''localhost'', ''3000'')}"
proof -
  have "snd ` set (acceptors ex_world) \<subseteq> {(''localhost'', ''3000'')}"
    by (simp add: ex_world_def)
  then have "snd ` set (acceptors (run_sessions Parse ex_world evs)) \<subseteq> {(''localhost'', ''3000'')}"
    by (rule run_sessions_acceptors)
  then show ?thesis
    by (simp add: accept_conn_def forward_conn_def ex_world1_eq ex_world1_def [symmetric])
qed

end
